theory Spec2Isabelle
  imports Complex_Main
begin

section \<open>Python values\<close>

text \<open>
  A Python \<open>str\<close> is a sequence of Unicode code points; a code point is a natural
  number. \<open>lit\<close> turns an ASCII literal of the source, such as \<open>"title"\<close>, into its
  code points.
\<close>

type_synonym ustr = "nat list"

definition lit :: "string \<Rightarrow> ustr" where
  "lit s = map of_char s"

text \<open>
  The values \<open>json.loads\<close> produces, which are also the values of the payload sent to
  the target API: \<open>None\<close>, \<open>bool\<close>, \<open>int\<close>, \<open>float\<close> (the finite ones, as the reals
  they denote), \<open>str\<close>, \<open>list\<close> and \<open>dict\<close>. A dict is an association list in
  insertion order, read with \<open>map_of\<close>.
\<close>

datatype json =
    JNull
  | JBool bool
  | JInt int
  | JFloat real
  | JStr ustr
  | JList "json list"
  | JObj "(ustr \<times> json) list"

type_synonym dict = "(ustr \<times> json) list"

datatype py_error =
    TypeError
  | AttributeError
  | ValueError
  | KeyError
  | IndexError
  | OverflowError
  | RequestException

text \<open>Truth value testing, as \<open>if x:\<close> and \<open>not x\<close> do it.\<close>

fun truthy :: "json \<Rightarrow> bool" where
  "truthy JNull = False"
| "truthy (JBool b) = b"
| "truthy (JInt n) = (n \<noteq> 0)"
| "truthy (JFloat x) = (x \<noteq> 0)"
| "truthy (JStr s) = (s \<noteq> [])"
| "truthy (JList xs) = (xs \<noteq> [])"
| "truthy (JObj kvs) = (kvs \<noteq> [])"

text \<open>\<open>d.get(k)\<close> is \<open>None\<close> for a missing key; \<open>d.get(k, default)\<close> is the default.\<close>

definition dict_get :: "dict \<Rightarrow> ustr \<Rightarrow> json" where
  "dict_get d k = (case map_of d k of None \<Rightarrow> JNull | Some v \<Rightarrow> v)"

definition dict_get_default :: "dict \<Rightarrow> ustr \<Rightarrow> json \<Rightarrow> json" where
  "dict_get_default d k dflt = (case map_of d k of None \<Rightarrow> dflt | Some v \<Rightarrow> v)"

text \<open>\<open>d[k] = v\<close>: replaces the value of a key already there, appends a new key.\<close>

fun dict_set :: "dict \<Rightarrow> ustr \<Rightarrow> json \<Rightarrow> dict" where
  "dict_set [] k v = [(k, v)]"
| "dict_set ((k', v') # d) k v =
     (if k' = k then (k, v) # d else (k', v') # dict_set d k v)"

section \<open>The Python library\<close>

text \<open>
  The source calls into CPython's Unicode database (\<open>str.strip\<close>, \<open>str.lower\<close>,
  \<open>str.upper\<close>, the classes \<open>\d\<close>, \<open>\s\<close>, \<open>\w\<close> of \<open>re\<close>,
  \<open>unicodedata.normalize\<close>), into \<open>datetime\<close>, \<open>base64\<close> and \<open>str()\<close>. On ASCII
  everything is written out below. The tables for the code points from 128 on, and the
  library routines whose results depend on floating point, on the platform or on a
  setting of the interpreter, are not part of the repository: they are the fields of
  \<open>pylib\<close>, a parameter of every definition that needs them.
  \<^item> \<open>u_space c\<close>: \<open>c\<close> is Unicode whitespace (\<open>str.isspace\<close>, \<open>\s\<close>);
  \<^item> \<open>u_decimal c\<close>: the value of \<open>c\<close> as a decimal digit (category Nd: \<open>\d\<close>,
    \<open>int()\<close>), if it is one;
  \<^item> \<open>u_alnum c\<close>: \<open>c\<close> is alphanumeric (\<open>\w\<close>);
  \<^item> \<open>u_lower pre c post\<close>: the lower case of \<open>c\<close> between the text \<open>pre\<close> before it and
    \<open>post\<close> after it (the context decides the final sigma);
  \<^item> \<open>u_upper c\<close>: the upper case of \<open>c\<close>;
  \<^item> \<open>u_nfkd c\<close>: the full compatibility decomposition of \<open>c\<close>;
  \<^item> \<open>float_date x\<close>: the two date strings for a float timestamp \<open>x\<close>, or the
    error raised;
  \<^item> \<open>year_text y\<close>: \<open>strftime("%Y")\<close> for a year below 1000 (padded or not,
    by platform);
  \<^item> \<open>py_repr v\<close>: \<open>str(v)\<close> for a value that is not a string, a bool, an int or
    \<open>None\<close>;
  \<^item> \<open>b64decode v\<close>: the bytes \<open>base64.b64decode(v)\<close> returns, \<open>None\<close> where it
    raises;
  \<^item> \<open>max_str_digits\<close>: \<open>sys.get_int_max_str_digits()\<close>, the most digits \<open>int()\<close>
    reads from a string and \<open>str()\<close> writes for an int: 4300 unless configured, 0 for
    no limit. The interpreter refuses a setting from 1 to 639, which is read as 640 here.
\<close>

record pylib =
  u_space :: "nat \<Rightarrow> bool"
  u_decimal :: "nat \<Rightarrow> nat option"
  u_alnum :: "nat \<Rightarrow> bool"
  u_lower :: "ustr \<Rightarrow> nat \<Rightarrow> ustr \<Rightarrow> ustr"
  u_upper :: "nat \<Rightarrow> ustr"
  u_nfkd :: "nat \<Rightarrow> ustr"
  float_date :: "real \<Rightarrow> py_error + ustr \<times> ustr"
  year_text :: "nat \<Rightarrow> ustr"
  py_repr :: "json \<Rightarrow> ustr"
  b64decode :: "json \<Rightarrow> nat list option"
  max_str_digits :: nat

subsection \<open>Character classes\<close>

definition py_isspace :: "pylib \<Rightarrow> nat \<Rightarrow> bool" where
  "py_isspace L c =
     (if c < 128 then (9 \<le> c \<and> c \<le> 13) \<or> (28 \<le> c \<and> c \<le> 32) else u_space L c)"

definition py_decimal :: "pylib \<Rightarrow> nat \<Rightarrow> nat option" where
  "py_decimal L c =
     (if c < 128 then (if 48 \<le> c \<and> c \<le> 57 then Some (c - 48) else None)
      else u_decimal L c)"

definition py_isdigit :: "pylib \<Rightarrow> nat \<Rightarrow> bool" where
  "py_isdigit L c = (py_decimal L c \<noteq> None)"

definition py_isword :: "pylib \<Rightarrow> nat \<Rightarrow> bool" where
  "py_isword L c =
     (if c < 128
      then (48 \<le> c \<and> c \<le> 57) \<or> (65 \<le> c \<and> c \<le> 90) \<or> (97 \<le> c \<and> c \<le> 122) \<or> c = 95
      else u_alnum L c)"

subsection \<open>String methods\<close>

fun lower_from :: "pylib \<Rightarrow> ustr \<Rightarrow> ustr \<Rightarrow> ustr" where
  "lower_from L pre [] = []"
| "lower_from L pre (c # cs) =
     (if c < 128 then [if 65 \<le> c \<and> c \<le> 90 then c + 32 else c] else u_lower L pre c cs)
     @ lower_from L (pre @ [c]) cs"

definition py_lower :: "pylib \<Rightarrow> ustr \<Rightarrow> ustr" where
  "py_lower L s = lower_from L [] s"

definition py_upper :: "pylib \<Rightarrow> ustr \<Rightarrow> ustr" where
  "py_upper L s =
     concat (map (\<lambda>c. if c < 128 then [if 97 \<le> c \<and> c \<le> 122 then c - 32 else c]
                        else u_upper L c) s)"

definition lstrip_where :: "(nat \<Rightarrow> bool) \<Rightarrow> ustr \<Rightarrow> ustr" where
  "lstrip_where P s = dropWhile P s"

definition strip_where :: "(nat \<Rightarrow> bool) \<Rightarrow> ustr \<Rightarrow> ustr" where
  "strip_where P s = rev (dropWhile P (rev (dropWhile P s)))"

text \<open>\<open>s.strip()\<close>, \<open>s.strip(chars)\<close> and \<open>s.lstrip(chars)\<close>.\<close>

definition py_strip :: "pylib \<Rightarrow> ustr \<Rightarrow> ustr" where
  "py_strip L s = strip_where (py_isspace L) s"

definition strip_chars :: "ustr \<Rightarrow> ustr \<Rightarrow> ustr" where
  "strip_chars chars s = strip_where (\<lambda>c. c \<in> set chars) s"

definition lstrip_chars :: "ustr \<Rightarrow> ustr \<Rightarrow> ustr" where
  "lstrip_chars chars s = lstrip_where (\<lambda>c. c \<in> set chars) s"

text \<open>\<open>s.split(sep)\<close> for a separator of one character: \<open>"".split("\n")\<close> is \<open>[""]\<close>.\<close>

fun split_on :: "nat \<Rightarrow> ustr \<Rightarrow> ustr list" where
  "split_on d [] = [[]]"
| "split_on d (c # cs) =
     (if c = d then [] # split_on d cs
      else (case split_on d cs of [] \<Rightarrow> [[c]] | x # xs \<Rightarrow> (c # x) # xs))"

definition startswith :: "ustr \<Rightarrow> ustr \<Rightarrow> bool" where
  "startswith s p = (take (length p) s = p)"

text \<open>\<open>str(n)\<close> for an int: decimal digits, with a minus sign below zero.\<close>

fun str_nat :: "nat \<Rightarrow> ustr" where
  "str_nat n = (if n < 10 then [48 + n] else str_nat (n div 10) @ [48 + n mod 10])"

definition str_int :: "int \<Rightarrow> ustr" where
  "str_int i = (if i < 0 then 45 # str_nat (nat (- i)) else str_nat (nat i))"

subsection \<open>Regular expressions\<close>

text \<open>
  \<open>re.sub(pattern, repl, text)\<close> for the two shapes of pattern the source substitutes:
  a character class (every matching character is replaced) and a class under \<open>+\<close>
  (every maximal run of matching characters is replaced once).
\<close>

definition sub_class :: "(nat \<Rightarrow> bool) \<Rightarrow> ustr \<Rightarrow> ustr \<Rightarrow> ustr" where
  "sub_class P repl s = concat (map (\<lambda>c. if P c then repl else [c]) s)"

function sub_runs :: "(nat \<Rightarrow> bool) \<Rightarrow> ustr \<Rightarrow> ustr \<Rightarrow> ustr" where
  "sub_runs P repl [] = []"
| "sub_runs P repl (c # cs) =
     (if P c then repl @ sub_runs P repl (dropWhile P cs) else c # sub_runs P repl cs)"
  by pat_completeness auto
termination
  by (relation "measure (\<lambda>(P, repl, s). length s)")
     (auto simp: less_Suc_eq_le length_dropWhile_le)

section \<open>Text Normalizer\<close>

text \<open>
  \<open>unicodedata.normalize("NFKD", text).encode("ascii", "ignore").decode("ascii")\<close>:
  NFKD replaces every character by its full decomposition and then reorders combining
  marks among themselves. An ASCII character decomposes to itself and is no combining
  mark, so what is left after the non-ASCII characters are dropped is, character by
  character, the ASCII part of the decomposition.
\<close>

definition nfkd_ascii :: "pylib \<Rightarrow> ustr \<Rightarrow> ustr" where
  "nfkd_ascii L s =
     concat (map (\<lambda>c. if c < 128 then [c] else filter (\<lambda>d. d < 128) (u_nfkd L c)) s)"

text \<open>\<open>slugify\<close> on a string, line by line.\<close>

definition slugify_str :: "pylib \<Rightarrow> ustr \<Rightarrow> ustr" where
  "slugify_str L text0 =
     (let text1 = nfkd_ascii L text0;
          text2 = py_strip L (py_lower L text1);
          text3 = sub_class (\<lambda>c. \<not> (py_isword L c \<or> py_isspace L c \<or> c = 45)) [] text2;
          text4 = sub_runs (\<lambda>c. py_isspace L c \<or> c = 95) [45] text3;
          text5 = sub_runs (\<lambda>c. c = 45) [45] text4
      in strip_chars [45] text5)"

text \<open>
  \<open>slugify\<close> on any value: \<open>unicodedata.normalize\<close> raises \<open>TypeError\<close> for an
  argument that is not a \<open>str\<close>.
\<close>

definition slugify :: "pylib \<Rightarrow> json \<Rightarrow> py_error + ustr" where
  "slugify L v = (case v of JStr s \<Rightarrow> Inr (slugify_str L s) | _ \<Rightarrow> Inl TypeError)"

text \<open>
  The source searches with three patterns. A pattern is a term of \<open>rx\<close>, and
  \<open>rmatch p st\<close> lists every way \<open>p\<close> matches at a state, in the order in which
  the backtracking matcher of \<open>re\<close> tries them: greedy repetition first the longest,
  an option first taken, an alternation first its left branch. A state is the position
  in the text, the text from there on, and the text of group 1, if set. Repetition is
  needed over character classes only.
\<close>

datatype rx =
    Str ustr
  | Cls "nat \<Rightarrow> bool"
  | Seq rx rx
  | Alt rx rx
  | Opt rx
  | Star "nat \<Rightarrow> bool"
  | Plus "nat \<Rightarrow> bool"
  | Grp rx
  | Bol
  | Eol

type_synonym mstate = "nat \<times> ustr \<times> ustr option"

fun star_cls :: "(nat \<Rightarrow> bool) \<Rightarrow> nat \<Rightarrow> ustr \<Rightarrow> ustr option \<Rightarrow> mstate list" where
  "star_cls P i [] g = [(i, [], g)]"
| "star_cls P i (c # cs) g =
     (if P c then star_cls P (Suc i) cs g @ [(i, c # cs, g)] else [(i, c # cs, g)])"

fun rmatch :: "rx \<Rightarrow> mstate \<Rightarrow> mstate list" where
  "rmatch (Str w) (i, s, g) =
     (if take (length w) s = w then [(i + length w, drop (length w) s, g)] else [])"
| "rmatch (Cls P) (i, s, g) =
     (case s of [] \<Rightarrow> [] | c # cs \<Rightarrow> if P c then [(Suc i, cs, g)] else [])"
| "rmatch (Seq a b) st = concat (map (rmatch b) (rmatch a st))"
| "rmatch (Alt a b) st = rmatch a st @ rmatch b st"
| "rmatch (Opt a) st = rmatch a st @ [st]"
| "rmatch (Star P) (i, s, g) = star_cls P i s g"
| "rmatch (Plus P) (i, s, g) =
     (case s of [] \<Rightarrow> [] | c # cs \<Rightarrow> if P c then star_cls P (Suc i) cs g else [])"
| "rmatch (Grp a) (i, s, g) =
     map (\<lambda>(j, r, _). (j, r, Some (take (j - i) s))) (rmatch a (i, s, g))"
| "rmatch Bol (i, s, g) = (if i = 0 then [(i, s, g)] else [])"
| "rmatch Eol (i, s, g) = (if s = [] \<or> s = [10] then [(i, s, g)] else [])"

text \<open>
  \<open>re.match\<close> takes the first way to match at position 0; \<open>re.search\<close> tries the
  positions from left to right, the end of the text included.
\<close>

definition re_match :: "rx \<Rightarrow> ustr \<Rightarrow> mstate option" where
  "re_match p s = (case rmatch p (0, s, None) of [] \<Rightarrow> None | m # _ \<Rightarrow> Some m)"

fun re_search_from :: "rx \<Rightarrow> nat \<Rightarrow> ustr \<Rightarrow> mstate option" where
  "re_search_from p i s =
     (case rmatch p (i, s, None) of
        m # _ \<Rightarrow> Some m
      | [] \<Rightarrow> (case s of [] \<Rightarrow> None | _ # cs \<Rightarrow> re_search_from p (Suc i) cs))"

definition re_search :: "rx \<Rightarrow> ustr \<Rightarrow> mstate option" where
  "re_search p s = re_search_from p 0 s"

text \<open>Sequencing of computations that may raise.\<close>

definition and_then :: "py_error + 'a \<Rightarrow> ('a \<Rightarrow> py_error + 'b) \<Rightarrow> py_error + 'b" where
  "and_then m f = (case m of Inl e \<Rightarrow> Inl e | Inr x \<Rightarrow> f x)"

text \<open>
  \<open>int(m.group(1))\<close>. \<open>int\<close> of a string of decimal digits is its value. A group
  that did not take part in the match is \<open>None\<close>, and \<open>int(None)\<close> raises
  \<open>TypeError\<close>. On a string that is empty or has another character the model raises
  \<open>ValueError\<close>; \<open>int\<close> accepts a few of those (a sign, spaces around, underscores),
  none of which a group \<open>(\d+)\<close> can hold. On a string of more digits than the limit
  of the interpreter, leading zeros counted, \<open>int\<close> raises \<open>ValueError\<close>
  (\<open>Exceeds the limit (4300 digits) for integer string conversion\<close>).
\<close>

definition digits_within :: "pylib \<Rightarrow> nat \<Rightarrow> bool" where
  "digits_within L k = (max_str_digits L = 0 \<or> k \<le> max 640 (max_str_digits L))"

definition digits_value :: "pylib \<Rightarrow> ustr \<Rightarrow> nat" where
  "digits_value L s =
     foldl (\<lambda>a c. 10 * a + (case py_decimal L c of None \<Rightarrow> 0 | Some v \<Rightarrow> v)) 0 s"

definition int_digits :: "pylib \<Rightarrow> ustr \<Rightarrow> py_error + nat" where
  "int_digits L s =
     (if s \<noteq> [] \<and> list_all (py_isdigit L) s
      then (if digits_within L (length s) then Inr (digits_value L s) else Inl ValueError)
      else Inl ValueError)"

definition int_group1 :: "pylib \<Rightarrow> mstate \<Rightarrow> py_error + nat" where
  "int_group1 L m =
     (case m of (_, _, g) \<Rightarrow> (case g of None \<Rightarrow> Inl TypeError | Some ds \<Rightarrow> int_digits L ds))"

text \<open>
  The patterns of \<open>parse_time_to_iso\<close>:
  \<^verbatim>\<open>(\d+)\s*(?:h(?:ours?|r)?|stunde[n]?)\<close>,
  \<^verbatim>\<open>(\d+)\s*(?:m(?:in(?:ute[ns]?)?)?|minute[n]?)\<close> and
  \<^verbatim>\<open>^(\d+)$\<close>.
\<close>

definition h_pattern :: "pylib \<Rightarrow> rx" where
  "h_pattern L =
     Seq (Grp (Plus (py_isdigit L)))
       (Seq (Star (py_isspace L))
          (Alt (Seq (Str (lit ''h''))
                  (Opt (Alt (Seq (Str (lit ''our'')) (Opt (Str (lit ''s''))))
                            (Str (lit ''r'')))))
               (Seq (Str (lit ''stunde'')) (Opt (Cls (\<lambda>c. c \<in> set (lit ''n'')))))))"

definition m_pattern :: "pylib \<Rightarrow> rx" where
  "m_pattern L =
     Seq (Grp (Plus (py_isdigit L)))
       (Seq (Star (py_isspace L))
          (Alt (Seq (Str (lit ''m''))
                  (Opt (Seq (Str (lit ''in''))
                          (Opt (Seq (Str (lit ''ute''))
                                  (Opt (Cls (\<lambda>c. c \<in> set (lit ''ns'')))))))))
               (Seq (Str (lit ''minute'')) (Opt (Cls (\<lambda>c. c \<in> set (lit ''n'')))))))"

definition bare_pattern :: "pylib \<Rightarrow> rx" where
  "bare_pattern L = Seq Bol (Seq (Grp (Plus (py_isdigit L))) Eol)"

text \<open>
  The end of \<open>parse_time_to_iso\<close>, from \<open>if hours == 0 and minutes == 0\<close> on. The
  two numbers written by \<open>f"{hours}H"\<close> and \<open>f"{minutes}M"\<close> were read by \<open>int\<close> from
  no more digits than the limit allows, and have no more digits than were read: \<open>str\<close>
  does not reach the limit here.
\<close>

definition compose_duration :: "ustr \<Rightarrow> nat \<Rightarrow> nat \<Rightarrow> ustr" where
  "compose_duration time_str hours minutes =
     (if hours = 0 \<and> minutes = 0 then time_str
      else lit ''PT''
           @ (if hours \<noteq> 0 then str_nat hours @ lit ''H'' else [])
           @ (if minutes \<noteq> 0 then str_nat minutes @ lit ''M'' else []))"

text \<open>\<open>parse_time_to_iso\<close> from the two searches on, on the trimmed, lowercased text.\<close>

definition parse_time_str :: "pylib \<Rightarrow> ustr \<Rightarrow> py_error + ustr" where
  "parse_time_str L time_str =
     (let h_match = re_search (h_pattern L) time_str;
          m_match = re_search (m_pattern L) time_str
      in and_then (case h_match of None \<Rightarrow> Inr 0 | Some m \<Rightarrow> int_group1 L m) (\<lambda>hours.
         and_then (case m_match of None \<Rightarrow> Inr 0 | Some m \<Rightarrow> int_group1 L m) (\<lambda>minutes.
           if h_match = None \<and> m_match = None
           then (case re_match (bare_pattern L) time_str of
                   Some bare \<Rightarrow>
                     and_then (int_group1 L bare) (\<lambda>minutes'.
                       Inr (compose_duration time_str hours minutes'))
                 | None \<Rightarrow> Inr time_str)
           else Inr (compose_duration time_str hours minutes))))"

text \<open>
  \<open>parse_time_to_iso\<close> on any value. The result \<open>None\<close> of the source is the
  \<open>None\<close> of the option. A truthy value that is not a string has no \<open>strip\<close>:
  \<open>AttributeError\<close>.
\<close>

definition parse_time_to_iso :: "pylib \<Rightarrow> json \<Rightarrow> py_error + ustr option" where
  "parse_time_to_iso L v =
     (if \<not> truthy v then Inr None
      else (case v of
              JStr s \<Rightarrow>
                if py_strip L s = [] then Inr None
                else (let time_str = py_lower L (py_strip L s)
                      in if startswith time_str (lit ''pt'') then Inr (Some (py_upper L time_str))
                         else and_then (parse_time_str L time_str) (\<lambda>r. Inr (Some r)))
            | _ \<Rightarrow> Inl AttributeError))"

section \<open>Structured text\<close>

text \<open>
  \<open>str(uuid.uuid4())\<close> draws a fresh random identifier at every call. The identifiers
  a run draws are the sequence \<open>ids\<close>; the number of those drawn so far is passed
  along and returned.
\<close>

type_synonym idgen = "nat \<Rightarrow> ustr"

definition is_header :: "ustr \<Rightarrow> bool" where
  "is_header line = startswith line (lit ''#'')"

text \<open>\<open>line.lstrip("#").strip()\<close>.\<close>

definition header_title :: "pylib \<Rightarrow> ustr \<Rightarrow> ustr" where
  "header_title L line = py_strip L (lstrip_chars (lit ''#'') line)"

text \<open>The loop of \<open>mela_instructions_to_steps\<close> over the lines.\<close>

definition new_step :: "ustr \<Rightarrow> dict" where
  "new_step ident =
     [(lit ''id'', JStr ident),
      (lit ''title'', JStr []),
      (lit ''summary'', JStr []),
      (lit ''text'', JStr []),
      (lit ''ingredientReferences'', JList [])]"

fun steps_loop :: "pylib \<Rightarrow> idgen \<Rightarrow> nat \<Rightarrow> ustr list \<Rightarrow> json list \<times> nat" where
  "steps_loop L ids n [] = ([], n)"
| "steps_loop L ids n (line0 # rest) =
     (let line = py_strip L line0
      in if line = [] then steps_loop L ids n rest
         else (let step = new_step (ids n);
                   step' = (if is_header line
                            then dict_set step (lit ''title'') (JStr (header_title L line))
                            else dict_set step (lit ''text'') (JStr line))
               in (case steps_loop L ids (Suc n) rest of
                     (steps, n') \<Rightarrow> (JObj step' # steps, n'))))"

text \<open>
  \<open>mela_instructions_to_steps\<close> on any value: a falsy one gives the empty list, a
  truthy one that is not a string has no \<open>split\<close>.
\<close>

definition mela_instructions_to_steps ::
  "pylib \<Rightarrow> idgen \<Rightarrow> nat \<Rightarrow> json \<Rightarrow> py_error + json list \<times> nat" where
  "mela_instructions_to_steps L ids n v =
     (if \<not> truthy v then Inr ([], n)
      else (case v of
              JStr s \<Rightarrow> Inr (steps_loop L ids n (split_on 10 s))
            | _ \<Rightarrow> Inl AttributeError))"

text \<open>
  The loop of \<open>mela_ingredients_to_list\<close>, with its variable \<open>pending_title\<close>:
  \<open>None\<close> or the title of a header.
\<close>

definition pending_truthy :: "ustr option \<Rightarrow> bool" where
  "pending_truthy p = (case p of None \<Rightarrow> False | Some t \<Rightarrow> t \<noteq> [])"

fun ingredients_loop ::
  "pylib \<Rightarrow> idgen \<Rightarrow> nat \<Rightarrow> ustr option \<Rightarrow> ustr list \<Rightarrow> json list \<times> nat" where
  "ingredients_loop L ids n pending_title [] = ([], n)"
| "ingredients_loop L ids n pending_title (line0 # rest) =
     (let line = py_strip L line0
      in if line = [] then ingredients_loop L ids n pending_title rest
         else if is_header line
         then ingredients_loop L ids n (Some (header_title L line)) rest
         else (let ing = [(lit ''note'', JStr line), (lit ''referenceId'', JStr (ids n))];
                   ing' = (if pending_truthy pending_title
                           then dict_set ing (lit ''title'')
                                  (JStr (case pending_title of None \<Rightarrow> [] | Some t \<Rightarrow> t))
                           else ing);
                   pending_title' = (if pending_truthy pending_title then None
                                     else pending_title)
               in (case ingredients_loop L ids (Suc n) pending_title' rest of
                     (ingredients, n') \<Rightarrow> (JObj ing' # ingredients, n'))))"

definition mela_ingredients_to_list ::
  "pylib \<Rightarrow> idgen \<Rightarrow> nat \<Rightarrow> json \<Rightarrow> py_error + json list \<times> nat" where
  "mela_ingredients_to_list L ids n v =
     (if \<not> truthy v then Inr ([], n)
      else (case v of
              JStr s \<Rightarrow> Inr (ingredients_loop L ids n None (split_on 10 s))
            | _ \<Rightarrow> Inl AttributeError))"

section \<open>Dates\<close>

text \<open>
  \<open>datetime(2001, 1, 1, tzinfo=utc) + timedelta(seconds=n)\<close> for an integer \<open>n\<close>, as
  \<open>datetime\<close> computes it on proleptic Gregorian ordinals (day 1 is 0001-01-01, the
  last day 3652059 is 9999-12-31, and 2001-01-01 is day 730486). \<open>timedelta\<close> raises
  \<open>OverflowError\<close> beyond 999999999 days, the sum beyond the years 1 to 9999.
\<close>

definition days_in_month :: "nat list" where
  "days_in_month = [31, 28, 31, 30, 31, 30, 31, 31, 30, 31, 30, 31]"

definition is_leap :: "nat \<Rightarrow> bool" where
  "is_leap y = (y mod 4 = 0 \<and> (y mod 100 \<noteq> 0 \<or> y mod 400 = 0))"

text \<open>The month and the day of the month of day \<open>n\<close> (from 0) of a year.\<close>

fun month_day :: "bool \<Rightarrow> nat \<Rightarrow> nat list \<Rightarrow> nat \<Rightarrow> nat \<times> nat" where
  "month_day leap m [] n = (m, n + 1)"
| "month_day leap m (d # ds) n =
     (let len = (if m = 2 \<and> leap then d + 1 else d)
      in if n < len then (m, n + 1) else month_day leap (m + 1) ds (n - len))"

text \<open>
  \<open>date.fromordinal\<close>: the year is found from the number of whole 400, 100, 4 and 1
  year cycles before the day.
\<close>

definition ord2ymd :: "nat \<Rightarrow> nat \<times> nat \<times> nat" where
  "ord2ymd ordinal =
     (let n = ordinal - 1;
          n400 = n div 146097; n = n mod 146097;
          n100 = n div 36524; n = n mod 36524;
          n4 = n div 1461; n = n mod 1461;
          n1 = n div 365; n = n mod 365;
          year = n400 * 400 + 1 + n100 * 100 + n4 * 4 + n1
      in if n1 = 4 \<or> n100 = 4 then (year - 1, 12, 31)
         else (case month_day (is_leap year) 1 days_in_month n of (m, d) \<Rightarrow> (year, m, d)))"

definition pad2 :: "nat \<Rightarrow> ustr" where
  "pad2 n = (if n < 10 then 48 # str_nat n else str_nat n)"

definition pad4 :: "nat \<Rightarrow> ustr" where
  "pad4 n = replicate (4 - length (str_nat n)) 48 @ str_nat n"

definition nsdate_int :: "pylib \<Rightarrow> int \<Rightarrow> py_error + ustr \<times> ustr" where
  "nsdate_int L seconds =
     (let days = seconds div 86400; secs = nat (seconds mod 86400)
      in if \<bar>days\<bar> > 999999999 then Inl OverflowError
         else (let ordinal = 730486 + days
               in if ordinal < 1 \<or> ordinal > 3652059 then Inl OverflowError
                  else (case ord2ymd (nat ordinal) of
                          (y, m, d) \<Rightarrow>
                            Inr ((if y < 1000 then year_text L y else str_nat y)
                                   @ lit ''-'' @ pad2 m @ lit ''-'' @ pad2 d,
                                 pad4 y @ lit ''-'' @ pad2 m @ lit ''-'' @ pad2 d @ lit ''T''
                                   @ pad2 (secs div 3600) @ lit '':''
                                   @ pad2 (secs mod 3600 div 60) @ lit '':''
                                   @ pad2 (secs mod 60) @ lit ''+00:00''))))"

text \<open>
  The pair \<open>(dt.strftime("%Y-%m-%d"), dt.isoformat())\<close> for the value of the
  \<open>date\<close> field: a \<open>bool\<close> counts as an int, a float goes to the library, anything
  else is no number of seconds (\<open>TypeError\<close>).
\<close>

definition nsdate :: "pylib \<Rightarrow> json \<Rightarrow> py_error + ustr \<times> ustr" where
  "nsdate L v =
     (case v of
        JInt n \<Rightarrow> nsdate_int L n
      | JBool b \<Rightarrow> nsdate_int L (if b then 1 else 0)
      | JFloat x \<Rightarrow> float_date L x
      | _ \<Rightarrow> Inl TypeError)"

section \<open>Record Mapper\<close>

text \<open>\<open>if mela_recipe.get(src): mealie[dst] = mela_recipe[src]\<close>.\<close>

definition copy_field :: "dict \<Rightarrow> ustr \<Rightarrow> ustr \<Rightarrow> dict \<Rightarrow> dict" where
  "copy_field mela_recipe src dst mealie =
     (if truthy (dict_get mela_recipe src) then dict_set mealie dst (dict_get mela_recipe src)
      else mealie)"

definition opt_json :: "ustr option \<Rightarrow> json" where
  "opt_json r = (case r of None \<Rightarrow> JNull | Some s \<Rightarrow> JStr s)"

text \<open>\<open>if mela_recipe.get(src): mealie[dst] = parse_time_to_iso(mela_recipe[src])\<close>.\<close>

definition time_field :: "pylib \<Rightarrow> dict \<Rightarrow> ustr \<Rightarrow> ustr \<Rightarrow> dict \<Rightarrow> py_error + dict" where
  "time_field L mela_recipe src dst mealie =
     (if truthy (dict_get mela_recipe src)
      then and_then (parse_time_to_iso L (dict_get mela_recipe src))
             (\<lambda>t. Inr (dict_set mealie dst (opt_json t)))
      else Inr mealie)"

definition date_field :: "pylib \<Rightarrow> dict \<Rightarrow> dict \<Rightarrow> py_error + dict" where
  "date_field L mela_recipe mealie =
     (if truthy (dict_get mela_recipe (lit ''date''))
      then and_then (nsdate L (dict_get mela_recipe (lit ''date'')))
             (\<lambda>(date_added, created_at).
                Inr (dict_set (dict_set mealie (lit ''dateAdded'') (JStr date_added))
                       (lit ''createdAt'') (JStr created_at)))
      else Inr mealie)"

definition notes_field :: "dict \<Rightarrow> dict \<Rightarrow> dict" where
  "notes_field mela_recipe mealie =
     (let notes_parts =
            (if truthy (dict_get mela_recipe (lit ''notes''))
             then [JObj [(lit ''title'', JStr (lit ''Notes'')),
                         (lit ''text'', dict_get mela_recipe (lit ''notes''))]]
             else [])
            @ (if truthy (dict_get mela_recipe (lit ''nutrition''))
               then [JObj [(lit ''title'', JStr (lit ''Nutrition'')),
                           (lit ''text'', dict_get mela_recipe (lit ''nutrition''))]]
               else [])
      in if notes_parts \<noteq> [] then dict_set mealie (lit ''notes'') (JList notes_parts)
         else mealie)"

text \<open>
  The loop over the categories: a falsy entry is skipped, \<open>slugify\<close> raises on an
  entry that is no string, an entry whose slug is not in the table is dropped.
\<close>

fun cat_refs_loop :: "pylib \<Rightarrow> dict \<Rightarrow> json list \<Rightarrow> py_error + json list" where
  "cat_refs_loop L category_lookup [] = Inr []"
| "cat_refs_loop L category_lookup (c # cats) =
     (if \<not> truthy c then cat_refs_loop L category_lookup cats
      else and_then (slugify L c) (\<lambda>cat_slug.
           and_then (cat_refs_loop L category_lookup cats) (\<lambda>cat_refs.
             Inr ((case map_of category_lookup cat_slug of None \<Rightarrow> [] | Some e \<Rightarrow> [e])
                  @ cat_refs))))"

definition category_field :: "pylib \<Rightarrow> dict \<Rightarrow> dict \<Rightarrow> dict \<Rightarrow> py_error + dict" where
  "category_field L mela_recipe category_lookup mealie =
     (if truthy (dict_get mela_recipe (lit ''categories''))
      then (case dict_get mela_recipe (lit ''categories'') of
              JList cats \<Rightarrow>
                and_then (cat_refs_loop L category_lookup cats) (\<lambda>cat_refs.
                  Inr (if cat_refs \<noteq> []
                       then dict_set mealie (lit ''recipeCategory'') (JList cat_refs)
                       else mealie))
            | _ \<Rightarrow> Inr mealie)
      else Inr mealie)"

definition tags_field :: "dict \<Rightarrow> dict \<Rightarrow> dict \<Rightarrow> dict" where
  "tags_field mela_recipe tag_lookup mealie =
     (let tag_refs =
            (case map_of tag_lookup (lit ''mela-import'') of None \<Rightarrow> [] | Some e \<Rightarrow> [e])
            @ (if truthy (dict_get mela_recipe (lit ''favorite''))
               then (case map_of tag_lookup (lit ''favorite'') of None \<Rightarrow> [] | Some e \<Rightarrow> [e])
               else [])
            @ (if truthy (dict_get mela_recipe (lit ''wantToCook''))
               then (case map_of tag_lookup (lit ''want-to-cook'') of
                       None \<Rightarrow> [] | Some e \<Rightarrow> [e])
               else [])
      in if tag_refs \<noteq> [] then dict_set mealie (lit ''tags'') (JList tag_refs) else mealie)"

text \<open>
  \<open>convert_mela_to_mealie\<close>: the payload and the number of identifiers drawn, or the
  exception raised.
\<close>

definition convert_mela_to_mealie ::
  "pylib \<Rightarrow> idgen \<Rightarrow> nat \<Rightarrow> dict \<Rightarrow> dict \<Rightarrow> dict \<Rightarrow> py_error + dict \<times> nat" where
  "convert_mela_to_mealie L ids n mela_recipe category_lookup tag_lookup =
     (let mealie = copy_field mela_recipe (lit ''title'') (lit ''name'') [];
          mealie = copy_field mela_recipe (lit ''text'') (lit ''description'') mealie;
          mealie = copy_field mela_recipe (lit ''yield'') (lit ''recipeYield'') mealie
      in and_then (time_field L mela_recipe (lit ''prepTime'') (lit ''prepTime'') mealie)
           (\<lambda>mealie.
         and_then (time_field L mela_recipe (lit ''cookTime'') (lit ''performTime'') mealie)
           (\<lambda>mealie.
         and_then (time_field L mela_recipe (lit ''totalTime'') (lit ''totalTime'') mealie)
           (\<lambda>mealie.
         and_then (date_field L mela_recipe
                     (copy_field mela_recipe (lit ''link'') (lit ''orgURL'') mealie))
           (\<lambda>mealie.
         and_then (mela_ingredients_to_list L ids n
                     (dict_get_default mela_recipe (lit ''ingredients'') (JStr [])))
           (\<lambda>(ingredients, n1).
         and_then (mela_instructions_to_steps L ids n1
                     (dict_get_default mela_recipe (lit ''instructions'') (JStr [])))
           (\<lambda>(steps, n2).
         and_then (category_field L mela_recipe category_lookup
                     (notes_field mela_recipe
                        (dict_set (dict_set mealie (lit ''recipeIngredient'') (JList ingredients))
                           (lit ''recipeInstructions'') (JList steps))))
           (\<lambda>mealie.
         Inr (tags_field mela_recipe tag_lookup mealie, n2)))))))))"

section \<open>Migration Orchestrator\<close>

text \<open>
  The target API is a parameter: \<open>srv\<close> gives, for the requests sent so far, the reply
  to the last of them, or no reply (\<open>requests\<close> raises a \<open>RequestException\<close>). A
  reply is a status code and a body. The state of the run is the list of the requests
  sent, which is kept when an exception ends the run. Output to the console and the
  delay between records are left out. The field \<open>base_url\<close> of the configuration is
  the base URL after \<open>rstrip("/")\<close>; the two lookup tables are the ones \<open>migrate\<close>
  has built before the loop.
\<close>

datatype request =
    Post ustr json
  | Patch ustr json
  | PutImage ustr ustr "nat list"

datatype reply = Reply nat ustr | NoReply

type_synonym server = "request list \<Rightarrow> reply"

definition send :: "server \<Rightarrow> request list \<Rightarrow> request \<Rightarrow> reply \<times> request list" where
  "send srv sent req = (srv (sent @ [req]), sent @ [req])"

datatype outcome = Succeeded | Failed

record config =
  base_url :: ustr
  dry_run :: bool
  skip_images :: bool
  category_lookup :: dict
  tag_lookup :: dict

text \<open>\<open>str(v)\<close>, as the f-string formats the title.\<close>

definition py_str :: "pylib \<Rightarrow> json \<Rightarrow> ustr" where
  "py_str L v =
     (case v of
        JStr s \<Rightarrow> s
      | JNull \<Rightarrow> lit ''None''
      | JBool b \<Rightarrow> (if b then lit ''True'' else lit ''False'')
      | JInt i \<Rightarrow> str_int i
      | _ \<Rightarrow> py_repr L v)"

text \<open>\<open>images[0]\<close> for a truthy or falsy value of any type.\<close>

definition subscript0 :: "json \<Rightarrow> py_error + json" where
  "subscript0 v =
     (case v of
        JList xs \<Rightarrow> (case xs of [] \<Rightarrow> Inl IndexError | x # _ \<Rightarrow> Inr x)
      | JStr s \<Rightarrow> (case s of [] \<Rightarrow> Inl IndexError | c # _ \<Rightarrow> Inr (JStr [c]))
      | JObj kvs \<Rightarrow> Inl KeyError
      | _ \<Rightarrow> Inl TypeError)"

definition recipe_url :: "ustr \<Rightarrow> ustr \<Rightarrow> ustr" where
  "recipe_url base slug = base @ lit ''/api/recipes/'' @ slug"

text \<open>
  \<open>upload_image\<close>: a blob that does not decode gives \<open>False\<close> and no request; the
  extension comes from the first bytes; the reply 200 gives \<open>True\<close>.
\<close>

definition upload_image ::
  "pylib \<Rightarrow> server \<Rightarrow> ustr \<Rightarrow> ustr \<Rightarrow> json \<Rightarrow> request list \<Rightarrow> (py_error + bool) \<times> request list"
  where
  "upload_image L srv base slug image_b64 sent =
     (case b64decode L image_b64 of
        None \<Rightarrow> (Inr False, sent)
      | Some img_data \<Rightarrow>
          (let ext = (if take 8 img_data = [137, 80, 78, 71, 13, 10, 26, 10] then lit ''png''
                      else if take 4 img_data = lit ''RIFF''
                              \<and> take 4 (drop 8 img_data) = lit ''WEBP'' then lit ''webp''
                      else lit ''jpg'')
           in (case send srv sent (PutImage (recipe_url base slug @ lit ''/image'') ext img_data) of
                 (NoReply, sent') \<Rightarrow> (Inl RequestException, sent')
               | (Reply status body, sent') \<Rightarrow> (Inr (status = 200), sent'))))"

text \<open>\<open>resp.text.strip().strip('"')\<close>; the code point of the double quote is 34.\<close>

definition slug_of :: "pylib \<Rightarrow> ustr \<Rightarrow> ustr" where
  "slug_of L body = strip_chars [34] (py_strip L body)"

text \<open>Steps 2 and 3 of a record: the update of the created stub and the image.\<close>

definition update_recipe ::
  "pylib \<Rightarrow> server \<Rightarrow> idgen \<Rightarrow> config \<Rightarrow> dict \<Rightarrow> ustr \<Rightarrow> request list \<times> nat
     \<Rightarrow> (py_error + outcome) \<times> request list \<times> nat" where
  "update_recipe L srv ids cfg mela slug st =
     (case st of (sent, n) \<Rightarrow>
        (case convert_mela_to_mealie L ids n mela (category_lookup cfg) (tag_lookup cfg) of
           Inl e \<Rightarrow> (Inl e, sent, n)
         | Inr (mealie_data, n') \<Rightarrow>
             (case send srv sent (Patch (recipe_url (base_url cfg) slug) (JObj mealie_data)) of
                (NoReply, sent1) \<Rightarrow> (Inl RequestException, sent1, n')
              | (Reply status body, sent1) \<Rightarrow>
                  if status \<noteq> 200 then (Inr Failed, sent1, n')
                  else (let images = dict_get_default mela (lit ''images'') (JList [])
                        in if truthy images \<and> \<not> skip_images cfg
                           then (case subscript0 images of
                                   Inl e \<Rightarrow> (Inl e, sent1, n')
                                 | Inr first_image \<Rightarrow>
                                     (case upload_image L srv (base_url cfg) slug first_image sent1 of
                                        (Inl e, sent2) \<Rightarrow> (Inl e, sent2, n')
                                      | (Inr uploaded, sent2) \<Rightarrow> (Inr Succeeded, sent2, n')))
                           else (Inr Succeeded, sent1, n')))))"

text \<open>
  The body of the loop of \<open>migrate\<close> for one record; \<open>now\<close> is the value of
  \<open>int(time.time())\<close>. Only the first \<open>session.post\<close> stands in a \<open>try\<close>.
\<close>

definition unique_title :: "pylib \<Rightarrow> json \<Rightarrow> int \<Rightarrow> ustr" where
  "unique_title L title now = py_str L title @ lit '' (mela-'' @ str_int now @ lit '')''"

definition create_request :: "config \<Rightarrow> json \<Rightarrow> request" where
  "create_request cfg name = Post (base_url cfg @ lit ''/api/recipes'') (JObj [(lit ''name'', name)])"

definition migrate_record ::
  "pylib \<Rightarrow> server \<Rightarrow> idgen \<Rightarrow> config \<Rightarrow> int \<Rightarrow> dict \<Rightarrow> request list \<times> nat
     \<Rightarrow> (py_error + outcome) \<times> request list \<times> nat" where
  "migrate_record L srv ids cfg now mela st =
     (case st of (sent, n) \<Rightarrow>
        (let title = dict_get_default mela (lit ''title'') (JStr (lit ''Untitled''))
         in if dry_run cfg
            then (case convert_mela_to_mealie L ids n mela [] [] of
                    Inl e \<Rightarrow> (Inl e, sent, n)
                  | Inr (mealie_data, n') \<Rightarrow> (Inr Succeeded, sent, n'))
            else (case send srv sent (create_request cfg title) of
                    (NoReply, sent1) \<Rightarrow> (Inr Failed, sent1, n)
                  | (Reply status body, sent1) \<Rightarrow>
                      if status = 201
                      then update_recipe L srv ids cfg mela (slug_of L body) (sent1, n)
                      else if status = 409
                      then (case send srv sent1
                                   (create_request cfg (JStr (unique_title L title now))) of
                              (NoReply, sent2) \<Rightarrow> (Inl RequestException, sent2, n)
                            | (Reply status2 body2, sent2) \<Rightarrow>
                                if status2 = 201
                                then update_recipe L srv ids cfg mela (slug_of L body2) (sent2, n)
                                else (Inr Failed, sent2, n))
                      else (Inr Failed, sent1, n))))"

text \<open>
  The loop over the records with its counters \<open>success\<close> and \<open>failed\<close>; \<open>clock i\<close>
  is the time at record \<open>i\<close>. An exception ends the run.
\<close>

fun migrate_loop ::
  "pylib \<Rightarrow> server \<Rightarrow> idgen \<Rightarrow> config \<Rightarrow> (nat \<Rightarrow> int) \<Rightarrow> nat \<Rightarrow> dict list
     \<Rightarrow> request list \<times> nat \<Rightarrow> nat \<times> nat
     \<Rightarrow> py_error option \<times> (request list \<times> nat) \<times> (nat \<times> nat)" where
  "migrate_loop L srv ids cfg clock i [] st tally = (None, st, tally)"
| "migrate_loop L srv ids cfg clock i (mela # rest) st tally =
     (case tally of (success, failed) \<Rightarrow>
        (case migrate_record L srv ids cfg (clock i) mela st of
           (Inl e, st') \<Rightarrow> (Some e, st', (success, failed))
         | (Inr Succeeded, st') \<Rightarrow>
             migrate_loop L srv ids cfg clock (Suc i) rest st' (Suc success, failed)
         | (Inr Failed, st') \<Rightarrow>
             migrate_loop L srv ids cfg clock (Suc i) rest st' (success, Suc failed)))"

section \<open>Notions used in the proofs\<close>

text \<open>The characters of a slug, and a string with no two adjacent characters \<open>d\<close>.\<close>

definition slug_char :: "nat \<Rightarrow> bool" where
  "slug_char c = ((48 \<le> c \<and> c \<le> 57) \<or> (97 \<le> c \<and> c \<le> 122) \<or> c = 45)"

fun no_rep :: "nat \<Rightarrow> ustr \<Rightarrow> bool" where
  "no_rep d [] = True"
| "no_rep d [x] = True"
| "no_rep d (x # y # r) = (\<not> (x = d \<and> y = d) \<and> no_rep d (y # r))"

text \<open>
  A pattern without a group, and a match whose group 1 is a non-empty string of decimal
  digits at the start of the text \<open>s\<close>.
\<close>

fun no_grp :: "rx \<Rightarrow> bool" where
  "no_grp (Grp a) = False"
| "no_grp (Seq a b) = (no_grp a \<and> no_grp b)"
| "no_grp (Alt a b) = (no_grp a \<and> no_grp b)"
| "no_grp (Opt a) = no_grp a"
| "no_grp _ = True"

definition digits_prefix :: "pylib \<Rightarrow> ustr \<Rightarrow> mstate \<Rightarrow> bool" where
  "digits_prefix L s m =
     (case m of (_, _, g) \<Rightarrow>
        (case g of
           None \<Rightarrow> False
         | Some ds \<Rightarrow> ds \<noteq> [] \<and> list_all (py_isdigit L) ds \<and> take (length ds) s = ds))"

text \<open>A string that is empty or all whitespace.\<close>

definition blank :: "pylib \<Rightarrow> ustr \<Rightarrow> bool" where
  "blank L s = list_all (py_isspace L) s"

text \<open>
  A text in which no run of consecutive characters of a class is longer than \<open>k\<close>, and a
  text in which no run of decimal digits is longer than \<open>int\<close> accepts.
\<close>

fun runs_within :: "(nat \<Rightarrow> bool) \<Rightarrow> nat \<Rightarrow> ustr \<Rightarrow> bool" where
  "runs_within P k [] = True"
| "runs_within P k (c # cs) = (length (takeWhile P (c # cs)) \<le> k \<and> runs_within P k cs)"

definition within_digit_limit :: "pylib \<Rightarrow> ustr \<Rightarrow> bool" where
  "within_digit_limit L t =
     (max_str_digits L = 0 \<or> runs_within (py_isdigit L) (max 640 (max_str_digits L)) t)"

text \<open>
  The number group 1 of a match stands for; the hour count and the minute count that the
  patterns of \<open>parse_time_to_iso\<close> find in a text (a count that is not found is 0, a
  bare integer is a minute count), if any of the three patterns matches; and a text that
  does not parse: no pattern matches, or both counts are 0.
\<close>

definition group_value :: "pylib \<Rightarrow> mstate \<Rightarrow> nat" where
  "group_value L m =
     (case m of (_, _, g) \<Rightarrow> (case g of None \<Rightarrow> 0 | Some ds \<Rightarrow> digits_value L ds))"

definition counts :: "pylib \<Rightarrow> ustr \<Rightarrow> (nat \<times> nat) option" where
  "counts L t =
     (case (re_search (h_pattern L) t, re_search (m_pattern L) t) of
        (None, None) \<Rightarrow>
          (case re_match (bare_pattern L) t of
             None \<Rightarrow> None
           | Some bare \<Rightarrow> Some (0, group_value L bare))
      | (h_match, m_match) \<Rightarrow>
          Some ((case h_match of None \<Rightarrow> 0 | Some m \<Rightarrow> group_value L m),
                (case m_match of None \<Rightarrow> 0 | Some m \<Rightarrow> group_value L m)))"

definition unparseable :: "pylib \<Rightarrow> ustr \<Rightarrow> bool" where
  "unparseable L t =
     (case counts L t of None \<Rightarrow> True | Some (hours, minutes) \<Rightarrow> hours = 0 \<and> minutes = 0)"

text \<open>
  The library and the identifiers of the closed examples. The examples are ASCII text and
  integers, on which every definition above is written out: this library has nothing
  beyond ASCII (no further whitespace, digits or letters) and no floats, and the limit
  on the digits of an int that an interpreter has when nothing configures it.
\<close>

definition ascii_lib :: pylib where
  "ascii_lib =
     \<lparr>u_space = (\<lambda>c. False), u_decimal = (\<lambda>c. None), u_alnum = (\<lambda>c. False),
      u_lower = (\<lambda>pre c post. [c]), u_upper = (\<lambda>c. [c]), u_nfkd = (\<lambda>c. [c]),
      float_date = (\<lambda>x. Inl OverflowError), year_text = pad4,
      py_repr = (\<lambda>v. []), b64decode = (\<lambda>v. None), max_str_digits = 4300\<rparr>"

definition ids0 :: idgen where
  "ids0 n = lit ''id-'' @ str_nat n"

text \<open>
  The non-blank lines of a block, trimmed; the step a line stands for; each line with
  the non-blank line before it; the title a line hands to the line after it; and the
  ingredient a content line stands for.
\<close>

definition content_lines :: "pylib \<Rightarrow> ustr \<Rightarrow> ustr list" where
  "content_lines L s = filter (\<lambda>l. l \<noteq> []) (map (py_strip L) (split_on 10 s))"

definition step_of :: "pylib \<Rightarrow> ustr \<Rightarrow> ustr \<Rightarrow> json" where
  "step_of L ident line =
     JObj [(lit ''id'', JStr ident),
           (lit ''title'', JStr (if is_header line then header_title L line else [])),
           (lit ''summary'', JStr []),
           (lit ''text'', JStr (if is_header line then [] else line)),
           (lit ''ingredientReferences'', JList [])]"

definition with_prev :: "ustr option \<Rightarrow> ustr list \<Rightarrow> (ustr option \<times> ustr) list" where
  "with_prev prev ls = zip (prev # map Some ls) ls"

definition title_from :: "pylib \<Rightarrow> ustr option \<Rightarrow> ustr option" where
  "title_from L prev =
     (case prev of
        None \<Rightarrow> None
      | Some p \<Rightarrow> if is_header p \<and> header_title L p \<noteq> [] then Some (header_title L p)
                  else None)"

definition ingredient_of :: "ustr \<Rightarrow> ustr option \<Rightarrow> ustr \<Rightarrow> json" where
  "ingredient_of ident title line =
     JObj ([(lit ''note'', JStr line), (lit ''referenceId'', JStr ident)]
           @ (case title of None \<Rightarrow> [] | Some t \<Rightarrow> [(lit ''title'', JStr t)]))"

definition ingredient_lines :: "pylib \<Rightarrow> ustr option \<Rightarrow> ustr list \<Rightarrow> (ustr option \<times> ustr) list" where
  "ingredient_lines L prev ls = filter (\<lambda>(p, l). \<not> is_header l) (with_prev prev ls)"

definition pending_title_of :: "ustr option \<Rightarrow> ustr option" where
  "pending_title_of p = (if pending_truthy p then p else None)"

text \<open>
  The part of \<open>convert_mela_to_mealie\<close> before the categories and the tags, which reads
  no lookup table; and the payload without its generated identifiers: the \<open>referenceId\<close>
  of every ingredient and the \<open>id\<close> of every step.
\<close>

definition convert_fields ::
  "pylib \<Rightarrow> idgen \<Rightarrow> nat \<Rightarrow> dict \<Rightarrow> py_error + dict \<times> nat" where
  "convert_fields L ids n mela_recipe =
     and_then (time_field L mela_recipe (lit ''prepTime'') (lit ''prepTime'')
                 (copy_field mela_recipe (lit ''yield'') (lit ''recipeYield'')
                    (copy_field mela_recipe (lit ''text'') (lit ''description'')
                       (copy_field mela_recipe (lit ''title'') (lit ''name'') []))))
       (\<lambda>mealie.
     and_then (time_field L mela_recipe (lit ''cookTime'') (lit ''performTime'') mealie)
       (\<lambda>mealie.
     and_then (time_field L mela_recipe (lit ''totalTime'') (lit ''totalTime'') mealie)
       (\<lambda>mealie.
     and_then (date_field L mela_recipe
                 (copy_field mela_recipe (lit ''link'') (lit ''orgURL'') mealie))
       (\<lambda>mealie.
     and_then (mela_ingredients_to_list L ids n
                 (dict_get_default mela_recipe (lit ''ingredients'') (JStr [])))
       (\<lambda>(ingredients, n1).
     and_then (mela_instructions_to_steps L ids n1
                 (dict_get_default mela_recipe (lit ''instructions'') (JStr [])))
       (\<lambda>(steps, n2).
     Inr (notes_field mela_recipe
            (dict_set (dict_set mealie (lit ''recipeIngredient'') (JList ingredients))
               (lit ''recipeInstructions'') (JList steps)), n2)))))))"

fun erase_key :: "ustr \<Rightarrow> json \<Rightarrow> json" where
  "erase_key k (JObj kvs) = JObj (filter (\<lambda>(k', v). k' \<noteq> k) kvs)"
| "erase_key k v = v"

fun erase_in_list :: "ustr \<Rightarrow> json \<Rightarrow> json" where
  "erase_in_list k (JList xs) = JList (map (erase_key k) xs)"
| "erase_in_list k v = v"

definition erase_entry :: "ustr \<Rightarrow> json \<Rightarrow> json" where
  "erase_entry k v =
     (if k = lit ''recipeIngredient'' then erase_in_list (lit ''referenceId'') v
      else if k = lit ''recipeInstructions'' then erase_in_list (lit ''id'') v
      else v)"

definition erase_ids :: "dict \<Rightarrow> dict" where
  "erase_ids mealie = map (\<lambda>(k, v). (k, erase_entry k v)) mealie"

definition without_ids :: "py_error + dict \<times> nat \<Rightarrow> py_error + dict" where
  "without_ids res = (case res of Inl e \<Rightarrow> Inl e | Inr (mealie, n) \<Rightarrow> Inr (erase_ids mealie))"

text \<open>
  A source field that is missing or falsy (\<open>None\<close>, empty, zero, \<open>False\<close>); the source
  field of a duration key of the payload; a duration key whose source is a string that
  is empty or all whitespace; and a payload in which only such a key is \<open>None\<close>.
\<close>

definition absent :: "dict \<Rightarrow> ustr \<Rightarrow> bool" where
  "absent mela_recipe k = (\<not> truthy (dict_get mela_recipe k))"

definition time_source :: "ustr \<Rightarrow> ustr option" where
  "time_source k =
     (if k = lit ''prepTime'' then Some (lit ''prepTime'')
      else if k = lit ''performTime'' then Some (lit ''cookTime'')
      else if k = lit ''totalTime'' then Some (lit ''totalTime'')
      else None)"

definition blank_time :: "pylib \<Rightarrow> dict \<Rightarrow> ustr \<Rightarrow> bool" where
  "blank_time L mela_recipe k =
     (case time_source k of
        None \<Rightarrow> False
      | Some src \<Rightarrow> (case dict_get mela_recipe src of JStr s \<Rightarrow> blank L s | _ \<Rightarrow> False))"

definition null_only_blank_time :: "pylib \<Rightarrow> dict \<Rightarrow> dict \<Rightarrow> bool" where
  "null_only_blank_time L mela_recipe mealie =
     (\<forall>k. map_of mealie k = Some JNull \<longrightarrow> blank_time L mela_recipe k)"


definition stew :: dict where
  "stew =
     [(lit ''title'', JStr (lit ''Stew'')),
      (lit ''text'', JStr []),
      (lit ''cookTime'', JStr (lit ''Soon'')),
      (lit ''totalTime'', JStr (lit ''2 h'')),
      (lit ''ingredients'', JStr (lit ''Beef''))]"

text \<open>
  The fields of the payload that come before the two lists, and a list returned with its
  identifiers removed.
\<close>

definition scalar_fields :: "pylib \<Rightarrow> dict \<Rightarrow> py_error + dict" where
  "scalar_fields L mela_recipe =
     and_then (time_field L mela_recipe (lit ''prepTime'') (lit ''prepTime'')
                 (copy_field mela_recipe (lit ''yield'') (lit ''recipeYield'')
                    (copy_field mela_recipe (lit ''text'') (lit ''description'')
                       (copy_field mela_recipe (lit ''title'') (lit ''name'') []))))
       (\<lambda>mealie.
     and_then (time_field L mela_recipe (lit ''cookTime'') (lit ''performTime'') mealie)
       (\<lambda>mealie.
     and_then (time_field L mela_recipe (lit ''totalTime'') (lit ''totalTime'') mealie)
       (\<lambda>mealie.
     date_field L mela_recipe
       (copy_field mela_recipe (lit ''link'') (lit ''orgURL'') mealie))))"

definition erased_list :: "ustr \<Rightarrow> py_error + json list \<times> nat \<Rightarrow> py_error + json list" where
  "erased_list k res =
     (case res of Inl e \<Rightarrow> Inl e | Inr (xs, n) \<Rightarrow> Inr (map (erase_key k) xs))"

definition payload_without_ids ::
  "pylib \<Rightarrow> dict \<Rightarrow> dict \<Rightarrow> dict \<Rightarrow> py_error + json list \<Rightarrow> py_error + json list
     \<Rightarrow> py_error + dict" where
  "payload_without_ids L mela_recipe ctab ttab ingredients steps =
     and_then (scalar_fields L mela_recipe) (\<lambda>mealie.
     and_then ingredients (\<lambda>xs.
     and_then steps (\<lambda>ys.
     and_then (category_field L mela_recipe ctab
                 (notes_field mela_recipe
                    (dict_set (dict_set (erase_ids mealie) (lit ''recipeIngredient'') (JList xs))
                       (lit ''recipeInstructions'') (JList ys))))
       (\<lambda>mealie'. Inr (tags_field mela_recipe ttab mealie')))))"

text \<open>
  A request that creates a record, a request that writes to the record at a URL, and the
  configuration, the record and the two servers of the closed examples: both answer the
  first create call with a conflict and the second with a slug; the update then succeeds
  at the first and fails at the second.
\<close>

definition is_create :: "request \<Rightarrow> bool" where
  "is_create req = (case req of Post url body \<Rightarrow> True | _ \<Rightarrow> False)"

definition targets :: "ustr \<Rightarrow> request \<Rightarrow> bool" where
  "targets url req =
     (case req of
        Post u body \<Rightarrow> False
      | Patch u body \<Rightarrow> u = url
      | PutImage u ext img_data \<Rightarrow> u = url @ lit ''/image'')"

definition cfg0 :: config where
  "cfg0 = \<lparr>base_url = lit ''http://mealie'', dry_run = False, skip_images = False,
           category_lookup = [], tag_lookup = []\<rparr>"

definition pie :: dict where
  "pie = [(lit ''title'', JStr (lit ''Pie''))]"

definition srv_update_ok :: server where
  "srv_update_ok sent =
     (if length sent = 1 then Reply 409 []
      else if length sent = 2 then Reply 201 ([34] @ lit ''pie-1'' @ [34])
      else Reply 200 [])"

definition srv_update_fails :: server where
  "srv_update_fails sent =
     (if length sent = 1 then Reply 409 []
      else if length sent = 2 then Reply 201 ([34] @ lit ''pie-1'' @ [34])
      else Reply 500 [])"

section \<open>Properties of the Text Normalizer\<close>

subsection \<open>The slug\<close>

lemma nfkd_ascii_lt: "list_all (\<lambda>c. c < 128) (nfkd_ascii L s)"
  unfolding nfkd_ascii_def list_all_iff by auto

lemma nfkd_ascii_id: "list_all (\<lambda>c. c < 128) s \<Longrightarrow> nfkd_ascii L s = s"
  by (induction s) (auto simp: nfkd_ascii_def)

lemma lower_from_ascii:
  "list_all (\<lambda>c. c < 128) s \<Longrightarrow>
   lower_from L b s = map (\<lambda>c. if 65 \<le> c \<and> c \<le> 90 then c + 32 else c) s"
  by (induction s arbitrary: b) auto

lemma set_strip_where: "set (strip_where P s) \<subseteq> set s"
  by (auto simp: strip_where_def dest!: set_dropWhileD)

lemma list_all_strip_where: "list_all Q s \<Longrightarrow> list_all Q (strip_where P s)"
  using set_strip_where[of P s] by (auto simp: list_all_iff)

lemma sub_class_filter: "sub_class P [] s = filter (\<lambda>c. \<not> P c) s"
  by (induction s) (auto simp: sub_class_def)

lemma set_sub_runs: "set (sub_runs P [d] s) \<subseteq> insert d {c \<in> set s. \<not> P c}"
proof (induction P "[d]" s rule: sub_runs.induct)
  case (1 P)
  then show ?case by simp
next
  case (2 P c cs)
  then show ?case using set_dropWhileD[of _ P cs] by (auto split: if_splits)
qed

lemma sub_runs_none: "list_all (\<lambda>c. \<not> P c) s \<Longrightarrow> sub_runs P r s = s"
  by (induction s) auto

lemma sub_runs_no_rep: "no_rep d (sub_runs (\<lambda>c. c = d) [d] s)"
proof (induction "\<lambda>c. c = d" "[d]" s rule: sub_runs.induct)
  case 1
  then show ?case by simp
next
  case (2 c cs)
  show ?case
  proof (cases "c = d")
    case True
    show ?thesis
    proof (cases "dropWhile (\<lambda>c. c = d) cs")
      case Nil
      then show ?thesis using True by (simp del: dropWhile_eq_Nil_conv)
    next
      case (Cons x xs)
      then have "x \<noteq> d" using hd_dropWhile[of "\<lambda>c. c = d" cs] by auto
      then show ?thesis using True Cons 2(1) by simp
    qed
  next
    case False
    then show ?thesis using 2(2) by (cases "sub_runs (\<lambda>c. c = d) [d] cs") auto
  qed
qed

lemma no_rep_fix: "no_rep d s \<Longrightarrow> sub_runs (\<lambda>c. c = d) [d] s = s"
  by (induction d s rule: no_rep.induct) auto

lemma no_rep_tl: "no_rep d (x # b) \<Longrightarrow> no_rep d b"
  by (cases b) auto

lemma no_rep_suffix: "no_rep d (a @ b) \<Longrightarrow> no_rep d b"
  by (induction a) (auto dest: no_rep_tl)

lemma no_rep_prefix: "no_rep d (a @ b) \<Longrightarrow> no_rep d a"
  by (induction d a rule: no_rep.induct) auto

lemma no_rep_strip_where: "no_rep d s \<Longrightarrow> no_rep d (strip_where P s)"
proof -
  assume a: "no_rep d s"
  have "s = takeWhile P s @ dropWhile P s" by simp
  then have b: "no_rep d (dropWhile P s)" using a no_rep_suffix by metis
  have "rev (dropWhile P s) = takeWhile P (rev (dropWhile P s)) @ dropWhile P (rev (dropWhile P s))" by simp
  then have "dropWhile P s = rev (dropWhile P (rev (dropWhile P s))) @ rev (takeWhile P (rev (dropWhile P s)))"
    by (metis rev_append rev_rev_ident)
  then show ?thesis unfolding strip_where_def using b no_rep_prefix by metis
qed

lemma rstrip_prefix: "\<exists>t. w = rev (dropWhile P (rev w)) @ t"
proof -
  have "rev w = takeWhile P (rev w) @ dropWhile P (rev w)" by simp
  then have "w = rev (dropWhile P (rev w)) @ rev (takeWhile P (rev w))"
    by (metis rev_append rev_rev_ident)
  then show ?thesis ..
qed

lemma strip_where_idem: "strip_where P (strip_where P s) = strip_where P s"
proof -
  define w where "w = dropWhile P s"
  define u where "u = rev (dropWhile P (rev w))"
  obtain t where wt: "w = u @ t" unfolding u_def using rstrip_prefix[of w P] by blast
  have "dropWhile P u = u"
  proof (cases "u = []")
    case True
    then show ?thesis by simp
  next
    case False
    then have "w \<noteq> []" and "hd u = hd w" using wt by auto
    then have "\<not> P (hd u)" using hd_dropWhile[of P s] w_def by auto
    then show ?thesis using False by (simp add: dropWhile_eq_self_iff)
  qed
  then have "strip_where P u = rev (dropWhile P (rev u))" by (simp add: strip_where_def)
  also have "\<dots> = u" by (simp add: u_def)
  finally have f: "strip_where P u = u" .
  have e: "strip_where P s = u" unfolding u_def w_def strip_where_def ..
  show ?thesis unfolding e by (rule f)
qed

lemma strip_where_none: "list_all (\<lambda>c. \<not> P c) s \<Longrightarrow> strip_where P s = s"
proof (cases "s = []")
  case True
  then show ?thesis by (simp add: strip_where_def)
next
  case False
  assume a: "list_all (\<lambda>c. \<not> P c) s"
  have "\<not> P (hd s)" and "\<not> P (last s)" using a False by (auto simp: list_all_iff)
  then have "dropWhile P s = s" and "dropWhile P (rev s) = rev s"
    using False by (simp_all add: dropWhile_eq_self_iff hd_rev)
  then show ?thesis by (simp add: strip_where_def)
qed

lemma slugify_str_chars: "list_all slug_char (slugify_str L x)"
proof -
  define t1 where "t1 = nfkd_ascii L x"
  define t2 where "t2 = py_strip L (py_lower L t1)"
  define t3 where "t3 = sub_class (\<lambda>c. \<not> (py_isword L c \<or> py_isspace L c \<or> c = 45)) [] t2"
  define t4 where "t4 = sub_runs (\<lambda>c. py_isspace L c \<or> c = 95) [45] t3"
  define t5 where "t5 = sub_runs (\<lambda>c. c = 45) [45] t4"
  have r: "slugify_str L x = strip_chars [45] t5"
    by (simp add: slugify_str_def t1_def t2_def t3_def t4_def t5_def)
  have a1: "list_all (\<lambda>c. c < 128) t1" by (simp add: t1_def nfkd_ascii_lt)
  then have "list_all (\<lambda>c. c < 128 \<and> \<not> (65 \<le> c \<and> c \<le> 90)) (py_lower L t1)"
    by (auto simp: py_lower_def lower_from_ascii list_all_iff)
  then have a2: "list_all (\<lambda>c. c < 128 \<and> \<not> (65 \<le> c \<and> c \<le> 90)) t2"
    by (simp add: t2_def py_strip_def list_all_strip_where)
  have a3: "list_all (\<lambda>c. slug_char c \<or> py_isspace L c \<or> c = 95) t3"
    using a2 by (auto simp: t3_def sub_class_filter list_all_iff py_isword_def slug_char_def)
  have a4: "list_all slug_char t4"
    using a3 set_sub_runs[of "\<lambda>c. py_isspace L c \<or> c = 95" 45 t3]
    by (auto simp: t4_def list_all_iff slug_char_def)
  have a5: "list_all slug_char t5"
    using a4 set_sub_runs[of "\<lambda>c. c = 45" 45 t4]
    by (auto simp: t5_def list_all_iff slug_char_def)
  show ?thesis using a5 by (simp add: r strip_chars_def list_all_strip_where)
qed

lemma slugify_str_no_rep: "no_rep 45 (slugify_str L x)"
  by (simp add: slugify_str_def strip_chars_def no_rep_strip_where sub_runs_no_rep)

lemma slugify_str_fix:
  assumes c: "list_all slug_char y" and n: "no_rep 45 y"
  shows "slugify_str L y = strip_chars [45] y"
proof -
  have a: "list_all (\<lambda>c. c < 128) y" using c by (auto simp: list_all_iff slug_char_def)
  have t1: "nfkd_ascii L y = y" using a by (rule nfkd_ascii_id)
  have "py_lower L y = map (\<lambda>c. if 65 \<le> c \<and> c \<le> 90 then c + 32 else c) y"
    using a by (simp add: py_lower_def lower_from_ascii)
  also have "\<dots> = y" using c by (intro map_idI) (auto simp: list_all_iff slug_char_def)
  finally have lo: "py_lower L y = y" .
  have "list_all (\<lambda>c. \<not> py_isspace L c) y"
    using c by (auto simp: list_all_iff slug_char_def py_isspace_def)
  then have t2: "py_strip L y = y" by (simp add: py_strip_def strip_where_none)
  have t3: "sub_class (\<lambda>c. \<not> (py_isword L c \<or> py_isspace L c \<or> c = 45)) [] y = y"
    using c by (auto simp: sub_class_filter list_all_iff slug_char_def py_isword_def filter_id_conv)
  have "list_all (\<lambda>c. \<not> (py_isspace L c \<or> c = 95)) y"
    using c by (auto simp: list_all_iff slug_char_def py_isspace_def)
  then have t4: "sub_runs (\<lambda>c. py_isspace L c \<or> c = 95) [45] y = y" by (rule sub_runs_none)
  have t5: "sub_runs (\<lambda>c. c = 45) [45] y = y" using n by (rule no_rep_fix)
  show ?thesis unfolding slugify_str_def Let_def by (simp only: t1 lo t2 t3 t4 t5)
qed

lemma slugify_str_idempotent: "slugify_str L (slugify_str L x) = slugify_str L x"
proof -
  have "slugify_str L (slugify_str L x) = strip_chars [45] (slugify_str L x)"
    by (rule slugify_str_fix[OF slugify_str_chars slugify_str_no_rep])
  also have "\<dots> = slugify_str L x"
    by (simp add: slugify_str_def strip_chars_def strip_where_idem)
  finally show ?thesis .
qed

text \<open>
  C3: \<open>slugify\<close> is idempotent. For every string \<open>x\<close>, \<open>slugify(x)\<close> returns a
  string \<open>y\<close>, and \<open>slugify(y)\<close> returns \<open>y\<close> again.
\<close>

theorem slugify_idempotent:
  "\<exists>y. slugify L (JStr x) = Inr y \<and> slugify L (JStr y) = Inr y"
  by (simp add: slugify_def slugify_str_idempotent)


subsection \<open>Durations\<close>

lemma star_cls_sound:
  "(j, r, g) \<in> set (star_cls P i s g0) \<Longrightarrow>
   g = g0 \<and> i \<le> j \<and> list_all P (take (j - i) s) \<and> r = drop (j - i) s"
proof (induction P i s g0 rule: star_cls.induct)
  case (1 P i g)
  then show ?case by simp
next
  case (2 P i c cs g0)
  show ?case
  proof (cases "P c \<and> (j, r, g) \<in> set (star_cls P (Suc i) cs g0)")
    case True
    then have a: "g = g0 \<and> Suc i \<le> j \<and> list_all P (take (j - Suc i) cs)
                   \<and> r = drop (j - Suc i) cs"
      using 2(1) by simp
    then have "take (j - i) (c # cs) = c # take (j - Suc i) cs"
      and "drop (j - i) (c # cs) = drop (j - Suc i) cs"
      by (simp_all add: take_Cons' drop_Cons' Suc_diff_le)
    then show ?thesis using a True by simp
  next
    case False
    then have "(j, r, g) = (i, c # cs, g0)" using 2(2) by (auto split: if_splits)
    then show ?thesis by simp
  qed
qed

lemma star_cls_rest: "(j, r, g) \<in> set (star_cls P i s g0) \<Longrightarrow> set r \<subseteq> set s"
proof -
  assume "(j, r, g) \<in> set (star_cls P i s g0)"
  then have "r = drop (j - i) s" by (simp add: star_cls_sound)
  then show ?thesis by (simp add: set_drop_subset)
qed

lemma star_cls_hd: "list_all P s \<Longrightarrow> \<exists>rest. star_cls P i s g = (i + length s, [], g) # rest"
proof (induction s arbitrary: i)
  case Nil
  then show ?case by simp
next
  case (Cons c cs)
  have "list_all P cs" using Cons.prems by simp
  then have "\<exists>rest. star_cls P (Suc i) cs g = (Suc i + length cs, [], g) # rest"
    by (rule Cons.IH)
  then obtain rest where "star_cls P (Suc i) cs g = (Suc i + length cs, [], g) # rest" ..
  then show ?case using Cons.prems by simp
qed

lemma no_grp_keeps: "no_grp p \<Longrightarrow> m \<in> set (rmatch p (i, s, g0)) \<Longrightarrow> snd (snd m) = g0"
proof (induction p arbitrary: i s g0 m)
  case (Str w)
  then show ?case by (auto split: if_splits)
next
  case (Cls P)
  then show ?case by (auto split: if_splits list.splits)
next
  case (Seq a b)
  then obtain m1 where m1: "m1 \<in> set (rmatch a (i, s, g0))" and m: "m \<in> set (rmatch b m1)"
    by auto
  obtain i1 s1 g1 where e: "m1 = (i1, s1, g1)" by (cases m1) auto
  have "g1 = g0" using Seq.IH(1)[of m1 i s g0] Seq.prems(1) m1 e by simp
  then show ?case using Seq.IH(2)[of m i1 s1 g0] Seq.prems(1) m e by simp
next
  case (Alt a b)
  then show ?case by (cases m) auto
next
  case (Opt a)
  then show ?case by (cases m) auto
next
  case (Star P)
  then show ?case using star_cls_sound[of _ _ _ P i s g0] by (cases m) auto
next
  case (Plus P)
  then show ?case
    by (cases m) (auto split: list.splits if_splits dest: star_cls_sound)
next
  case (Grp a)
  then show ?case by simp
next
  case Bol
  then show ?case by (auto split: if_splits)
next
  case Eol
  then show ?case by (auto split: if_splits)
qed

lemma take_length_take: "take (length (take k s)) s = take k s"
  by (simp add: min_def)

lemma grp_plus_digits:
  "m \<in> set (rmatch (Grp (Plus (py_isdigit L))) (i, s, g0)) \<Longrightarrow> digits_prefix L s m"
proof -
  assume a: "m \<in> set (rmatch (Grp (Plus (py_isdigit L))) (i, s, g0))"
  then obtain c cs where s: "s = c # cs" and c: "py_isdigit L c" by (cases s) (auto split: if_splits)
  from a s c obtain j r g where
    jr: "(j, r, g) \<in> set (star_cls (py_isdigit L) (Suc i) cs g0)"
    and m: "m = (j, r, Some (take (j - i) s))"
    by auto
  have b: "Suc i \<le> j \<and> list_all (py_isdigit L) (take (j - Suc i) cs)"
    using star_cls_sound[OF jr] by simp
  then have e: "take (j - i) s = c # take (j - Suc i) cs"
    by (simp add: s take_Cons' Suc_diff_le)
  have "take (j - i) s \<noteq> []" and "list_all (py_isdigit L) (take (j - i) s)"
    using b c unfolding e by simp_all
  then show ?thesis
    unfolding digits_prefix_def m prod.case option.case
    using take_length_take[of "j - i" s] by blast
qed

lemma seq_grp_digits:
  assumes "no_grp q" and "m \<in> set (rmatch (Seq (Grp (Plus (py_isdigit L))) q) (i, s, g0))"
  shows "digits_prefix L s m"
proof -
  have "\<exists>m1\<in>set (rmatch (Grp (Plus (py_isdigit L))) (i, s, g0)). m \<in> set (rmatch q m1)"
    using assms(2) unfolding rmatch.simps(3) set_concat set_map by blast
  then obtain m1 where
    m1: "m1 \<in> set (rmatch (Grp (Plus (py_isdigit L))) (i, s, g0))" and m: "m \<in> set (rmatch q m1)"
    by blast
  obtain i1 s1 g1 where e: "m1 = (i1, s1, g1)" by (cases m1) auto
  have "digits_prefix L s m1" using m1 by (rule grp_plus_digits)
  moreover have "snd (snd m) = g1" using no_grp_keeps[OF assms(1), of m i1 s1 g1] m e by simp
  ultimately show ?thesis by (cases m) (simp add: digits_prefix_def e)
qed

lemma re_search_from_in:
  "re_search_from p i s = Some m \<Longrightarrow> \<exists>j pre s'. s = pre @ s' \<and> m \<in> set (rmatch p (j, s', None))"
proof (induction p i s rule: re_search_from.induct)
  case (1 p i s)
  show ?case
  proof (cases "rmatch p (i, s, None)")
    case Nil
    then obtain c cs where s: "s = c # cs" and r: "re_search_from p (Suc i) cs = Some m"
      using 1(2) by (cases s) auto
    from 1(1)[OF Nil s r] obtain j pre s' where
      "cs = pre @ s'" and "m \<in> set (rmatch p (j, s', None))"
      by blast
    then have "s = (c # pre) @ s' \<and> m \<in> set (rmatch p (j, s', None))" using s by simp
    then show ?thesis by blast
  next
    case (Cons a list)
    then have "m = a" using 1(2) by simp
    then have "s = [] @ s \<and> m \<in> set (rmatch p (i, s, None))" using Cons by simp
    then show ?thesis by blast
  qed
qed

lemma runs_within_suffix: "runs_within P k (a @ b) \<Longrightarrow> runs_within P k b"
  by (induction a) auto

lemma run_prefix_le:
  assumes "list_all P ds" and "take (length ds) s = ds"
  shows "length ds \<le> length (takeWhile P s)"
proof -
  have "s = ds @ drop (length ds) s" using append_take_drop_id[of "length ds" s] assms(2) by simp
  then have "takeWhile P s = ds @ takeWhile P (drop (length ds) s)"
    using assms(1) takeWhile_append2[of ds P "drop (length ds) s"] by (simp add: list_all_iff)
  then show ?thesis by simp
qed

lemma runs_within_prefix:
  assumes "runs_within P k s" and "ds \<noteq> []" and "list_all P ds" and "take (length ds) s = ds"
  shows "length ds \<le> k"
proof (cases s)
  case Nil
  then show ?thesis using assms(2,4) by simp
next
  case (Cons c cs)
  then have "length (takeWhile P s) \<le> k" using assms(1) by simp
  then show ?thesis using run_prefix_le[OF assms(3,4)] by simp
qed

lemma h_search_digits:
  "re_search (h_pattern L) t = Some m \<Longrightarrow> \<exists>pre s. t = pre @ s \<and> digits_prefix L s m"
proof -
  assume "re_search (h_pattern L) t = Some m"
  then obtain j pre s where t: "t = pre @ s"
    and a: "m \<in> set (rmatch (h_pattern L) (j, s, None))"
    unfolding re_search_def by (blast dest: re_search_from_in)
  have "digits_prefix L s m" by (rule seq_grp_digits[OF _ a[unfolded h_pattern_def]]) simp
  then show ?thesis using t by blast
qed

lemma m_search_digits:
  "re_search (m_pattern L) t = Some m \<Longrightarrow> \<exists>pre s. t = pre @ s \<and> digits_prefix L s m"
proof -
  assume "re_search (m_pattern L) t = Some m"
  then obtain j pre s where t: "t = pre @ s"
    and a: "m \<in> set (rmatch (m_pattern L) (j, s, None))"
    unfolding re_search_def by (blast dest: re_search_from_in)
  have "digits_prefix L s m" by (rule seq_grp_digits[OF _ a[unfolded m_pattern_def]]) simp
  then show ?thesis using t by blast
qed

lemma bare_match_digits: "re_match (bare_pattern L) t = Some m \<Longrightarrow> digits_prefix L t m"
proof -
  assume "re_match (bare_pattern L) t = Some m"
  then have "m \<in> set (rmatch (bare_pattern L) (0, t, None))"
    by (auto simp: re_match_def split: list.splits)
  then have "m \<in> set (rmatch (Seq (Grp (Plus (py_isdigit L))) Eol) (0, t, None))"
    by (simp add: bare_pattern_def)
  then show ?thesis by (rule seq_grp_digits[rotated]) simp
qed

text \<open>
  \<open>int\<close> reads the group of a match or raises \<open>ValueError\<close>; within the limit it
  reads it.
\<close>

lemma group_result:
  "digits_prefix L s m \<Longrightarrow>
   int_group1 L m = Inr (group_value L m) \<or> int_group1 L m = Inl ValueError"
  by (cases m)
     (auto simp: digits_prefix_def int_group1_def int_digits_def group_value_def
        split: option.splits)

lemma group_within:
  assumes "within_digit_limit L t" and "t = pre @ s" and "digits_prefix L s m"
  shows "int_group1 L m = Inr (group_value L m)"
proof -
  obtain j r g where m: "m = (j, r, g)" by (cases m) auto
  then obtain ds where g: "g = Some ds" and d: "ds \<noteq> []" "list_all (py_isdigit L) ds"
    and p: "take (length ds) s = ds"
    using assms(3) by (cases g) (auto simp: digits_prefix_def)
  have "digits_within L (length ds)"
  proof (cases "max_str_digits L = 0")
    case True
    then show ?thesis by (simp add: digits_within_def)
  next
    case False
    then have "runs_within (py_isdigit L) (max 640 (max_str_digits L)) (pre @ s)"
      using assms(1,2) by (simp add: within_digit_limit_def)
    then have "runs_within (py_isdigit L) (max 640 (max_str_digits L)) s"
      by (rule runs_within_suffix)
    then have "length ds \<le> max 640 (max_str_digits L)"
      using d p by (rule runs_within_prefix)
    then show ?thesis by (simp add: digits_within_def)
  qed
  then show ?thesis using d by (simp add: m g int_group1_def int_digits_def group_value_def)
qed

lemma h_search_value:
  assumes "within_digit_limit L t" and "re_search (h_pattern L) t = Some m"
  shows "int_group1 L m = Inr (group_value L m)"
proof -
  from h_search_digits[OF assms(2)] obtain pre s where "t = pre @ s" and "digits_prefix L s m"
    by blast
  then show ?thesis using assms(1) by (simp add: group_within)
qed

lemma m_search_value:
  assumes "within_digit_limit L t" and "re_search (m_pattern L) t = Some m"
  shows "int_group1 L m = Inr (group_value L m)"
proof -
  from m_search_digits[OF assms(2)] obtain pre s where "t = pre @ s" and "digits_prefix L s m"
    by blast
  then show ?thesis using assms(1) by (simp add: group_within)
qed

lemma bare_match_value:
  assumes "within_digit_limit L t" and "re_match (bare_pattern L) t = Some m"
  shows "int_group1 L m = Inr (group_value L m)"
  using assms(1) bare_match_digits[OF assms(2)] group_within[of L t "[]" t m] by simp

lemma strip_where_Nil_iff: "strip_where P s = [] \<longleftrightarrow> list_all P s"
proof
  assume a: "strip_where P s = []"
  then have "dropWhile P (rev (dropWhile P s)) = []" by (simp add: strip_where_def)
  then have b: "list_all P (rev (dropWhile P s))" by (simp add: list_all_iff)
  have "dropWhile P s = []"
  proof (rule ccontr)
    assume n: "dropWhile P s \<noteq> []"
    then have "\<not> P (hd (dropWhile P s))" by (rule hd_dropWhile)
    moreover have "hd (dropWhile P s) \<in> set (dropWhile P s)" using n by simp
    ultimately show False using b by (auto simp: list_all_iff)
  qed
  then show "list_all P s" by (simp add: list_all_iff)
next
  assume "list_all P s"
  then have "dropWhile P s = []" by (simp add: list_all_iff)
  then show "strip_where P s = []" by (simp add: strip_where_def del: dropWhile_eq_Nil_conv)
qed

lemma py_strip_blank: "py_strip L s = [] \<longleftrightarrow> blank L s"
  by (simp add: py_strip_def blank_def strip_where_Nil_iff)

text \<open>
  Within the limit \<open>parse_time_str\<close> returns: the text itself where no pattern matches,
  and what \<open>compose_duration\<close> makes of the two counts otherwise.
\<close>

lemma parse_time_str_within:
  assumes "within_digit_limit L t"
  shows "parse_time_str L t =
           Inr (case counts L t of None \<Rightarrow> t | Some (h, m) \<Rightarrow> compose_duration t h m)"
proof (cases "re_search (h_pattern L) t")
  case None
  note hn = None
  show ?thesis
  proof (cases "re_search (m_pattern L) t")
    case None
    note mn = None
    show ?thesis
    proof (cases "re_match (bare_pattern L) t")
      case None
      then show ?thesis using hn mn by (simp add: parse_time_str_def counts_def and_then_def)
    next
      case (Some bm)
      then have "int_group1 L bm = Inr (group_value L bm)"
        using assms by (simp add: bare_match_value)
      then show ?thesis
        using hn mn Some by (simp add: parse_time_str_def counts_def and_then_def)
    qed
  next
    case (Some mm)
    then have "int_group1 L mm = Inr (group_value L mm)" using assms by (simp add: m_search_value)
    then show ?thesis using hn Some by (simp add: parse_time_str_def counts_def and_then_def)
  qed
next
  case (Some hm)
  then have k: "int_group1 L hm = Inr (group_value L hm)" using assms by (simp add: h_search_value)
  show ?thesis
  proof (cases "re_search (m_pattern L) t")
    case None
    then show ?thesis using Some k by (simp add: parse_time_str_def counts_def and_then_def)
  next
    case (Some mm)
    then have "int_group1 L mm = Inr (group_value L mm)" using assms by (simp add: m_search_value)
    then show ?thesis
      using \<open>re_search (h_pattern L) t = Some hm\<close> Some k
      by (simp add: parse_time_str_def counts_def and_then_def)
  qed
qed

lemma parse_time_str_unparseable:
  assumes "within_digit_limit L t" and "unparseable L t"
  shows "parse_time_str L t = Inr t"
proof (cases "counts L t")
  case None
  then show ?thesis using parse_time_str_within[OF assms(1)] by simp
next
  case (Some hm)
  obtain h m where e: "hm = (h, m)" by (cases hm) auto
  then have "h = 0 \<and> m = 0" using assms(2) Some by (simp add: unparseable_def)
  then show ?thesis
    using parse_time_str_within[OF assms(1)] Some e by (simp add: compose_duration_def)
qed

text \<open>The only exception \<open>parse_time_to_iso\<close> raises on a string is that of \<open>int\<close>.\<close>

lemma parse_time_str_error:
  assumes "parse_time_str L t = Inl e"
  shows "e = ValueError"
proof -
  have h: "\<And>m. re_search (h_pattern L) t = Some m \<Longrightarrow>
             int_group1 L m = Inr (group_value L m) \<or> int_group1 L m = Inl ValueError"
    by (blast dest: h_search_digits group_result)
  have m: "\<And>m. re_search (m_pattern L) t = Some m \<Longrightarrow>
             int_group1 L m = Inr (group_value L m) \<or> int_group1 L m = Inl ValueError"
    by (blast dest: m_search_digits group_result)
  have b: "\<And>m. re_match (bare_pattern L) t = Some m \<Longrightarrow>
             int_group1 L m = Inr (group_value L m) \<or> int_group1 L m = Inl ValueError"
    by (blast dest: bare_match_digits group_result)
  show ?thesis
  proof (cases "re_search (h_pattern L) t")
    case None
    note hn = None
    show ?thesis
    proof (cases "re_search (m_pattern L) t")
      case None
      note mn = None
      show ?thesis
      proof (cases "re_match (bare_pattern L) t")
        case None
        then show ?thesis using assms hn mn by (simp add: parse_time_str_def and_then_def)
      next
        case (Some bm)
        then show ?thesis
          using assms hn mn b[OF Some] by (auto simp: parse_time_str_def and_then_def)
      qed
    next
      case (Some mm)
      then show ?thesis
        using assms hn m[OF Some] by (auto simp: parse_time_str_def and_then_def)
    qed
  next
    case (Some hm)
    note hs = Some
    show ?thesis
    proof (cases "re_search (m_pattern L) t")
      case None
      then show ?thesis
        using assms hs h[OF hs] by (auto simp: parse_time_str_def and_then_def)
    next
      case (Some mm)
      then show ?thesis
        using assms hs h[OF hs] m[OF Some] by (auto simp: parse_time_str_def and_then_def)
    qed
  qed
qed

lemma parse_time_to_iso_error:
  assumes "parse_time_to_iso L (JStr s) = Inl e"
  shows "e = ValueError"
proof -
  have "parse_time_str L (py_lower L (py_strip L s)) = Inl e"
    using assms
    by (simp add: parse_time_to_iso_def Let_def and_then_def split: if_splits sum.splits)
  then show ?thesis by (rule parse_time_str_error)
qed

lemma parse_time_to_iso_none: "parse_time_to_iso L (JStr s) = Inr None \<longleftrightarrow> blank L s"
proof (cases "blank L s")
  case True
  then have "parse_time_to_iso L (JStr s) = Inr None"
    by (simp add: parse_time_to_iso_def py_strip_blank)
  then show ?thesis using True by simp
next
  case False
  then have ne: "s \<noteq> []" "py_strip L s \<noteq> []" by (auto simp: py_strip_blank blank_def)
  have "parse_time_to_iso L (JStr s) \<noteq> Inr None"
    using ne by (simp add: parse_time_to_iso_def Let_def and_then_def split: sum.splits)
  then show ?thesis using False by simp
qed

lemma parse_time_to_iso_returns:
  assumes "\<not> blank L s" and "within_digit_limit L (py_lower L (py_strip L s))"
  shows "\<exists>r. parse_time_to_iso L (JStr s) = Inr (Some r)
             \<and> (\<not> startswith (py_lower L (py_strip L s)) (lit ''pt'')
                  \<and> unparseable L (py_lower L (py_strip L s))
                 \<longrightarrow> r = py_lower L (py_strip L s))"
proof -
  have ne: "s \<noteq> []" "py_strip L s \<noteq> []" using assms(1) by (auto simp: py_strip_blank blank_def)
  define t where "t = py_lower L (py_strip L s)"
  have w: "within_digit_limit L t" using assms(2) by (simp add: t_def)
  obtain r where r: "parse_time_str L t = Inr r" using parse_time_str_within[OF w] by blast
  show ?thesis
  proof (cases "startswith t (lit ''pt'')")
    case True
    then have "parse_time_to_iso L (JStr s) = Inr (Some (py_upper L t))"
      using ne by (simp add: parse_time_to_iso_def t_def [symmetric] Let_def)
    then show ?thesis using True by (simp add: t_def)
  next
    case False
    then have e: "parse_time_to_iso L (JStr s) = Inr (Some r)"
      using ne r by (simp add: parse_time_to_iso_def t_def [symmetric] Let_def and_then_def)
    have "unparseable L t \<Longrightarrow> r = t" using r parse_time_str_unparseable[OF w] by simp
    then show ?thesis using e by (auto simp: t_def)
  qed
qed

text \<open>
  Beyond the limit: a text of ASCII digits only matches the third pattern alone, as a
  whole, and \<open>int\<close> raises on it.
\<close>

lemma str_no_match: "w \<noteq> [] \<Longrightarrow> hd w \<notin> set s \<Longrightarrow> rmatch (Str w) (i, s, g) = []"
  by (cases w; cases s) auto

lemma seq_no_match:
  "(\<And>m. m \<in> set (rmatch a st) \<Longrightarrow> rmatch b m = []) \<Longrightarrow> rmatch (Seq a b) st = []"
  by simp

lemma grp_plus_rest:
  "m \<in> set (rmatch (Grp (Plus P)) (i, s, g0)) \<Longrightarrow> set (fst (snd m)) \<subseteq> set s"
proof -
  assume a: "m \<in> set (rmatch (Grp (Plus P)) (i, s, g0))"
  then obtain c cs where s: "s = c # cs" and c: "P c" by (cases s) (auto split: if_splits)
  from a s c obtain j r g where
    jr: "(j, r, g) \<in> set (star_cls P (Suc i) cs g0)" and m: "m = (j, r, Some (take (j - i) s))"
    by auto
  have "set r \<subseteq> set cs" using jr by (rule star_cls_rest)
  then show ?thesis using s m by auto
qed

lemma star_rest: "m \<in> set (rmatch (Star P) (i, s, g0)) \<Longrightarrow> set (fst (snd m)) \<subseteq> set s"
  by (cases m) (simp add: star_cls_rest)

lemma h_no_match:
  assumes "104 \<notin> set s" and "115 \<notin> set s"
  shows "rmatch (h_pattern L) (i, s, g) = []"
  unfolding h_pattern_def
proof (rule seq_no_match)
  fix m1
  assume m1: "m1 \<in> set (rmatch (Grp (Plus (py_isdigit L))) (i, s, g))"
  obtain i1 s1 g1 where e1: "m1 = (i1, s1, g1)" by (cases m1) auto
  have s1: "set s1 \<subseteq> set s" using grp_plus_rest[OF m1] e1 by simp
  show "rmatch (Seq (Star (py_isspace L))
                 (Alt (Seq (Str (lit ''h''))
                         (Opt (Alt (Seq (Str (lit ''our'')) (Opt (Str (lit ''s''))))
                                   (Str (lit ''r'')))))
                      (Seq (Str (lit ''stunde'')) (Opt (Cls (\<lambda>c. c \<in> set (lit ''n''))))))) m1 = []"
  proof (rule seq_no_match)
    fix m2
    assume m2: "m2 \<in> set (rmatch (Star (py_isspace L)) m1)"
    obtain i2 s2 g2 where e2: "m2 = (i2, s2, g2)" by (cases m2) auto
    have "set s2 \<subseteq> set s1" using star_rest[of m2 "py_isspace L" i1 s1 g1] m2 e1 e2 by simp
    then have n: "104 \<notin> set s2" "115 \<notin> set s2" using s1 assms by auto
    have a: "rmatch (Str (lit ''h'')) (i2, s2, g2) = []"
      by (rule str_no_match) (use n in \<open>simp_all add: lit_def\<close>)
    have b: "rmatch (Str (lit ''stunde'')) (i2, s2, g2) = []"
      by (rule str_no_match) (use n in \<open>simp_all add: lit_def\<close>)
    show "rmatch (Alt (Seq (Str (lit ''h''))
                         (Opt (Alt (Seq (Str (lit ''our'')) (Opt (Str (lit ''s''))))
                                   (Str (lit ''r'')))))
                      (Seq (Str (lit ''stunde'')) (Opt (Cls (\<lambda>c. c \<in> set (lit ''n'')))))) m2 = []"
      unfolding e2 rmatch.simps(3,4) a b by simp
  qed
qed

lemma m_no_match:
  assumes "109 \<notin> set s"
  shows "rmatch (m_pattern L) (i, s, g) = []"
  unfolding m_pattern_def
proof (rule seq_no_match)
  fix m1
  assume m1: "m1 \<in> set (rmatch (Grp (Plus (py_isdigit L))) (i, s, g))"
  obtain i1 s1 g1 where e1: "m1 = (i1, s1, g1)" by (cases m1) auto
  have s1: "set s1 \<subseteq> set s" using grp_plus_rest[OF m1] e1 by simp
  show "rmatch (Seq (Star (py_isspace L))
                 (Alt (Seq (Str (lit ''m''))
                         (Opt (Seq (Str (lit ''in''))
                                 (Opt (Seq (Str (lit ''ute''))
                                         (Opt (Cls (\<lambda>c. c \<in> set (lit ''ns'')))))))))
                      (Seq (Str (lit ''minute'')) (Opt (Cls (\<lambda>c. c \<in> set (lit ''n''))))))) m1 = []"
  proof (rule seq_no_match)
    fix m2
    assume m2: "m2 \<in> set (rmatch (Star (py_isspace L)) m1)"
    obtain i2 s2 g2 where e2: "m2 = (i2, s2, g2)" by (cases m2) auto
    have "set s2 \<subseteq> set s1" using star_rest[of m2 "py_isspace L" i1 s1 g1] m2 e1 e2 by simp
    then have n: "109 \<notin> set s2" using s1 assms by auto
    have a: "rmatch (Str (lit ''m'')) (i2, s2, g2) = []"
      by (rule str_no_match) (use n in \<open>simp_all add: lit_def\<close>)
    have b: "rmatch (Str (lit ''minute'')) (i2, s2, g2) = []"
      by (rule str_no_match) (use n in \<open>simp_all add: lit_def\<close>)
    show "rmatch (Alt (Seq (Str (lit ''m''))
                         (Opt (Seq (Str (lit ''in''))
                                 (Opt (Seq (Str (lit ''ute''))
                                         (Opt (Cls (\<lambda>c. c \<in> set (lit ''ns'')))))))))
                      (Seq (Str (lit ''minute'')) (Opt (Cls (\<lambda>c. c \<in> set (lit ''n'')))))) m2 = []"
      unfolding e2 rmatch.simps(3,4) a b by simp
  qed
qed

lemma re_search_from_none:
  "(\<And>i s' g. set s' \<subseteq> set s \<Longrightarrow> rmatch p (i, s', g) = []) \<Longrightarrow> re_search_from p i s = None"
proof (induction s arbitrary: i)
  case Nil
  have "rmatch p (i, [], None) = []" by (rule Nil) simp
  then show ?case by simp
next
  case (Cons c cs)
  have a: "rmatch p (i, c # cs, None) = []" by (rule Cons.prems) simp
  have b: "re_search_from p (Suc i) cs = None"
  proof (rule Cons.IH)
    fix j s' g
    assume "set s' \<subseteq> set cs"
    then have "set s' \<subseteq> set (c # cs)" by auto
    then show "rmatch p (j, s', g) = []" by (rule Cons.prems)
  qed
  show ?case using a b by simp
qed

lemma bare_all_digits:
  assumes "s \<noteq> []" and "list_all (py_isdigit L) s"
  shows "re_match (bare_pattern L) s = Some (length s, [], Some s)"
proof -
  obtain c cs where s: "s = c # cs" using assms(1) by (cases s) auto
  then have c: "py_isdigit L c" and cs: "list_all (py_isdigit L) cs" using assms(2) by simp_all
  obtain rest where
    r: "star_cls (py_isdigit L) (Suc 0) cs None = (Suc 0 + length cs, [], None) # rest"
    using star_cls_hd[OF cs] by blast
  show ?thesis by (simp add: re_match_def bare_pattern_def s c r)
qed

lemma long_digits_raise:
  assumes "s \<noteq> []" and "list_all (\<lambda>c. 48 \<le> c \<and> c \<le> 57) s" and "\<not> digits_within L (length s)"
  shows "parse_time_to_iso L (JStr s) = Inl ValueError"
proof -
  have d: "list_all (py_isdigit L) s"
    using assms(2) by (auto simp: list_all_iff py_isdigit_def py_decimal_def)
  have a: "list_all (\<lambda>c. c < 128) s" using assms(2) by (auto simp: list_all_iff)
  have "list_all (\<lambda>c. \<not> py_isspace L c) s"
    using assms(2) by (auto simp: list_all_iff py_isspace_def)
  then have st: "py_strip L s = s" by (simp add: py_strip_def strip_where_none)
  have "map (\<lambda>c. if 65 \<le> c \<and> c \<le> 90 then c + 32 else c) s = s"
    using assms(2) by (intro map_idI) (auto simp: list_all_iff)
  then have lo: "py_lower L s = s" by (simp add: py_lower_def lower_from_ascii[OF a])
  have pt: "\<not> startswith s (lit ''pt'')"
    using assms(1,2) by (cases s) (auto simp: startswith_def lit_def)
  have n: "104 \<notin> set s" "115 \<notin> set s" "109 \<notin> set s"
    using assms(2) by (auto simp: list_all_iff)
  have h: "re_search (h_pattern L) s = None"
    unfolding re_search_def
  proof (rule re_search_from_none)
    fix i s' g
    assume "set s' \<subseteq> set s"
    then have "104 \<notin> set s'" and "115 \<notin> set s'" using n by auto
    then show "rmatch (h_pattern L) (i, s', g) = []" by (rule h_no_match)
  qed
  have m: "re_search (m_pattern L) s = None"
    unfolding re_search_def
  proof (rule re_search_from_none)
    fix i s' g
    assume "set s' \<subseteq> set s"
    then have "109 \<notin> set s'" using n by auto
    then show "rmatch (m_pattern L) (i, s', g) = []" by (rule m_no_match)
  qed
  have b: "re_match (bare_pattern L) s = Some (length s, [], Some s)"
    using assms(1) d by (rule bare_all_digits)
  have i: "int_group1 L (length s, [], Some s) = Inl ValueError"
    using assms(1,3) d by (simp add: int_group1_def int_digits_def)
  have "parse_time_str L s = Inl ValueError"
    by (simp add: parse_time_str_def h m b i and_then_def)
  then show ?thesis
    using assms(1) pt by (simp add: parse_time_to_iso_def st lo and_then_def)
qed

text \<open>Unfolding the text functions on closed terms.\<close>

lemmas text_eval =
  lit_def py_strip_def strip_where_def py_isspace_def py_lower_def py_upper_def
  startswith_def py_decimal_def py_isdigit_def py_isword_def
  strip_chars_def lstrip_chars_def lstrip_where_def

lemmas time_eval =
  parse_time_to_iso_def parse_time_str_def re_search_def re_match_def h_pattern_def
  m_pattern_def bare_pattern_def int_group1_def int_digits_def digits_within_def
  le_max_iff_disj digits_value_def and_then_def compose_duration_def Let_def

text \<open>
  C7, as amended. \<open>parse_time_to_iso\<close>, given \<open>None\<close> or a string, returns \<open>None\<close>
  exactly when the input is \<open>None\<close> or a string that is empty or all whitespace. On
  every other string whose trimmed, lowercased text has no run of decimal digits longer
  than \<open>int\<close> accepts (4300 digits unless the interpreter is configured otherwise) it
  returns a string; and where that text does not start with \<open>pt\<close> and does not parse (no
  pattern finds an hour count, a minute count or a bare integer, or the counts found are
  both zero), the string returned is that text: the input, trimmed and lowercased. It
  raises nothing but the \<open>ValueError\<close> of \<open>int\<close>, and only where that text has a longer
  run of digits.
\<close>

theorem parse_time_to_iso_within_limit:
  "(parse_time_to_iso L (opt_json x) = Inr None
      \<longleftrightarrow> (x = None \<or> (\<exists>s. x = Some s \<and> blank L s)))
   \<and> (\<forall>s. x = Some s \<and> \<not> blank L s \<and> within_digit_limit L (py_lower L (py_strip L s))
          \<longrightarrow> (\<exists>r. parse_time_to_iso L (opt_json x) = Inr (Some r)
                    \<and> (\<not> startswith (py_lower L (py_strip L s)) (lit ''pt'')
                         \<and> unparseable L (py_lower L (py_strip L s))
                        \<longrightarrow> r = py_lower L (py_strip L s))))
   \<and> (\<forall>e. parse_time_to_iso L (opt_json x) = Inl e
          \<longrightarrow> e = ValueError
              \<and> (\<exists>s. x = Some s \<and> \<not> within_digit_limit L (py_lower L (py_strip L s))))"
proof (cases x)
  case None
  then show ?thesis by (simp add: opt_json_def parse_time_to_iso_def)
next
  case (Some s)
  have "parse_time_to_iso L (opt_json x) = Inr None \<longleftrightarrow> blank L s"
    using Some parse_time_to_iso_none[of L s] by (simp add: opt_json_def)
  moreover have "\<not> blank L s \<and> within_digit_limit L (py_lower L (py_strip L s))
      \<longrightarrow> (\<exists>r. parse_time_to_iso L (opt_json x) = Inr (Some r)
                \<and> (\<not> startswith (py_lower L (py_strip L s)) (lit ''pt'')
                     \<and> unparseable L (py_lower L (py_strip L s))
                    \<longrightarrow> r = py_lower L (py_strip L s)))"
    using Some parse_time_to_iso_returns[of L s] by (simp add: opt_json_def)
  moreover have "\<forall>e. parse_time_to_iso L (opt_json x) = Inl e
      \<longrightarrow> e = ValueError \<and> \<not> within_digit_limit L (py_lower L (py_strip L s))"
  proof (intro allI impI)
    fix e
    assume "parse_time_to_iso L (opt_json x) = Inl e"
    then have e: "parse_time_to_iso L (JStr s) = Inl e" using Some by (simp add: opt_json_def)
    then have "\<not> blank L s" using parse_time_to_iso_none[of L s] by auto
    then have "\<not> within_digit_limit L (py_lower L (py_strip L s))"
      using e parse_time_to_iso_returns[of L s] by auto
    then show "e = ValueError \<and> \<not> within_digit_limit L (py_lower L (py_strip L s))"
      using parse_time_to_iso_error[OF e] by simp
  qed
  ultimately show ?thesis using Some by simp
qed

theorem parse_time_to_iso_within_limit_witness:
  "parse_time_to_iso ascii_lib (JStr (lit '' Soon '')) = Inr (Some (lit ''soon''))
   \<and> \<not> blank ascii_lib (lit '' Soon '')
   \<and> within_digit_limit ascii_lib (lit ''soon'')
   \<and> unparseable ascii_lib (lit ''soon'')
   \<and> parse_time_to_iso ascii_lib (JStr (lit ''0 Min'')) = Inr (Some (lit ''0 min''))
   \<and> \<not> blank ascii_lib (lit ''0 Min'')
   \<and> within_digit_limit ascii_lib (lit ''0 min'')
   \<and> unparseable ascii_lib (lit ''0 min'')
   \<and> counts ascii_lib (lit ''0 min'') = Some (0, 0)
   \<and> parse_time_to_iso ascii_lib JNull = Inr None
   \<and> parse_time_to_iso ascii_lib (JStr (lit '' '')) = Inr None
   \<and> parse_time_to_iso ascii_lib (JStr (replicate 4301 49)) = Inl ValueError
   \<and> \<not> within_digit_limit ascii_lib
         (py_lower ascii_lib (py_strip ascii_lib (replicate 4301 49)))"
proof -
  have a: "parse_time_to_iso ascii_lib (JStr (lit '' Soon '')) = Inr (Some (lit ''soon''))
     \<and> \<not> blank ascii_lib (lit '' Soon '')
     \<and> within_digit_limit ascii_lib (lit ''soon'')
     \<and> unparseable ascii_lib (lit ''soon'')
     \<and> parse_time_to_iso ascii_lib (JStr (lit ''0 Min'')) = Inr (Some (lit ''0 min''))
     \<and> \<not> blank ascii_lib (lit ''0 Min'')
     \<and> within_digit_limit ascii_lib (lit ''0 min'')
     \<and> unparseable ascii_lib (lit ''0 min'')
     \<and> counts ascii_lib (lit ''0 min'') = Some (0, 0)
     \<and> parse_time_to_iso ascii_lib JNull = Inr None
     \<and> parse_time_to_iso ascii_lib (JStr (lit '' '')) = Inr None"
    using parse_time_to_iso_within_limit[of ascii_lib "Some (lit '' Soon '')"]
          parse_time_to_iso_within_limit[of ascii_lib "Some (lit ''0 Min'')"]
          parse_time_to_iso_within_limit[of ascii_lib None]
          parse_time_to_iso_within_limit[of ascii_lib "Some (lit '' '')"]
    by (simp add: opt_json_def blank_def within_digit_limit_def le_max_iff_disj
          unparseable_def counts_def group_value_def digits_value_def text_eval
          re_search_def re_match_def h_pattern_def m_pattern_def bare_pattern_def)
  have b: "parse_time_to_iso ascii_lib (JStr (replicate 4301 49)) = Inl ValueError"
    by (rule long_digits_raise) (simp_all add: digits_within_def ascii_lib_def list_all_iff)
  have "\<not> within_digit_limit ascii_lib
           (py_lower ascii_lib (py_strip ascii_lib (replicate 4301 49)))"
    using parse_time_to_iso_within_limit[of ascii_lib "Some (replicate 4301 49)"] b
    by (simp add: opt_json_def)
  then show ?thesis using a b by blast
qed

text \<open>
  The claim as it stands fails: on a string of 4301 digits, which is neither \<open>None\<close>
  nor blank, \<open>int\<close> raises \<open>ValueError\<close> under the limit an interpreter has when
  nothing configures it, and \<open>parse_time_to_iso\<close> returns nothing.
\<close>

theorem parse_time_to_iso_long_digits:
  "parse_time_to_iso ascii_lib (opt_json (Some (replicate 4301 49))) = Inl ValueError
   \<and> \<not> blank ascii_lib (replicate 4301 49)"
proof -
  have "parse_time_to_iso ascii_lib (JStr (replicate 4301 49)) = Inl ValueError"
    by (rule long_digits_raise) (simp_all add: digits_within_def ascii_lib_def list_all_iff)
  moreover have "\<not> blank ascii_lib (replicate 4301 49)"
    by (simp add: blank_def list_all_iff py_isspace_def)
  ultimately show ?thesis by (simp add: opt_json_def)
qed

lemma duration_words:
  "parse_time_to_iso L (JStr (lit ''1 hour 15 minutes'')) = Inr (Some (lit ''PT1H15M''))"
  by (simp add: text_eval time_eval)

lemma duration_letters:
  "parse_time_to_iso L (JStr (lit ''1h 15m'')) = Inr (Some (lit ''PT1H15M''))"
  by (simp add: text_eval time_eval)

lemma duration_bare: "parse_time_to_iso L (JStr (lit ''45'')) = Inr (Some (lit ''PT45M''))"
  by (simp add: text_eval time_eval)

text \<open>
  C6: \<open>parse_time_to_iso("1 hour 15 minutes")\<close> and \<open>parse_time_to_iso("1h 15m")\<close>
  both return \<open>"PT1H15M"\<close>, and \<open>parse_time_to_iso("45")\<close> returns \<open>"PT45M"\<close>.
\<close>

theorem parse_time_to_iso_examples:
  "parse_time_to_iso L (JStr (lit ''1 hour 15 minutes'')) = Inr (Some (lit ''PT1H15M''))
   \<and> parse_time_to_iso L (JStr (lit ''1h 15m'')) = Inr (Some (lit ''PT1H15M''))
   \<and> parse_time_to_iso L (JStr (lit ''45'')) = Inr (Some (lit ''PT45M''))"
  using duration_words duration_letters duration_bare by blast

section \<open>Properties of the structured text\<close>

lemma step_set_title:
  "dict_set (new_step ident) (lit ''title'') (JStr t) =
     [(lit ''id'', JStr ident), (lit ''title'', JStr t), (lit ''summary'', JStr []),
      (lit ''text'', JStr []), (lit ''ingredientReferences'', JList [])]"
  by (simp add: new_step_def lit_def)

lemma step_set_text:
  "dict_set (new_step ident) (lit ''text'') (JStr t) =
     [(lit ''id'', JStr ident), (lit ''title'', JStr []), (lit ''summary'', JStr []),
      (lit ''text'', JStr t), (lit ''ingredientReferences'', JList [])]"
  by (simp add: new_step_def lit_def)

lemma steps_loop_eq:
  "steps_loop L ids n ls =
     (map (\<lambda>(k, line). step_of L (ids k) line)
        (enumerate n (filter (\<lambda>l. l \<noteq> []) (map (py_strip L) ls))),
      n + length (filter (\<lambda>l. l \<noteq> []) (map (py_strip L) ls)))"
proof (induction ls arbitrary: n)
  case Nil
  show ?case by simp
next
  case (Cons line0 rest)
  show ?case
  proof (cases "py_strip L line0 = []")
    case True
    then show ?thesis using Cons[of n] by simp
  next
    case False
    then show ?thesis
      using Cons[of "Suc n"]
      by (simp add: Let_def step_set_title step_set_text step_of_def)
  qed
qed

lemma instructions_general:
  "mela_instructions_to_steps L ids n (JStr s) =
     Inr (map (\<lambda>(k, line). step_of L (ids k) line) (enumerate n (content_lines L s)),
          n + length (content_lines L s))"
proof (cases "s = []")
  case True
  then show ?thesis
    by (simp add: mela_instructions_to_steps_def content_lines_def py_strip_def strip_where_def)
next
  case False
  then show ?thesis
    by (simp add: mela_instructions_to_steps_def content_lines_def steps_loop_eq)
qed


lemma ingredients_loop_eq:
  "pending_title_of pending = title_from L prev \<Longrightarrow>
   ingredients_loop L ids n pending ls =
     (map (\<lambda>(k, (p, line)). ingredient_of (ids k) (title_from L p) line)
        (enumerate n (ingredient_lines L prev (filter (\<lambda>l. l \<noteq> []) (map (py_strip L) ls)))),
      n + length (ingredient_lines L prev (filter (\<lambda>l. l \<noteq> []) (map (py_strip L) ls))))"
proof (induction ls arbitrary: n pending prev)
  case Nil
  show ?case by (simp add: ingredient_lines_def with_prev_def)
next
  case (Cons line0 rest)
  define line where "line = py_strip L line0"
  show ?case
  proof (cases "line = []")
    case True
    then show ?thesis using Cons.IH[OF Cons.prems, of n] by (simp add: line_def)
  next
    case ne: False
    show ?thesis
    proof (cases "is_header line")
      case True
      have "pending_title_of (Some (header_title L line)) = title_from L (Some line)"
        using True by (simp add: pending_title_of_def pending_truthy_def title_from_def)
      from Cons.IH[OF this, of n] show ?thesis
        using ne True by (simp add: line_def [symmetric] ingredient_lines_def with_prev_def)
    next
      case False
      have p: "pending_title_of (if pending_truthy pending then None else pending)
                 = title_from L (Some line)"
        using False by (simp add: pending_title_of_def pending_truthy_def title_from_def)
      have i: "JObj (if pending_truthy pending
                 then dict_set [(lit ''note'', JStr line), (lit ''referenceId'', JStr (ids n))]
                        (lit ''title'') (JStr (case pending of None \<Rightarrow> [] | Some t \<Rightarrow> t))
                 else [(lit ''note'', JStr line), (lit ''referenceId'', JStr (ids n))])
               = ingredient_of (ids n) (title_from L prev) line"
        using Cons.prems
        by (auto simp: ingredient_of_def pending_title_of_def pending_truthy_def lit_def
              split: option.splits if_splits)
      from Cons.IH[OF p, of "Suc n"] show ?thesis
        using ne False i
        by (simp add: line_def [symmetric] Let_def ingredient_lines_def with_prev_def)
    qed
  qed
qed

lemma ingredients_general:
  "mela_ingredients_to_list L ids n (JStr s) =
     Inr (map (\<lambda>(k, (p, line)). ingredient_of (ids k) (title_from L p) line)
            (enumerate n (ingredient_lines L None (content_lines L s))),
          n + length (ingredient_lines L None (content_lines L s)))"
proof (cases "s = []")
  case True
  then show ?thesis
    by (simp add: mela_ingredients_to_list_def content_lines_def py_strip_def strip_where_def
          ingredient_lines_def with_prev_def)
next
  case False
  have "pending_title_of None = title_from L None"
    by (simp add: pending_title_of_def pending_truthy_def title_from_def)
  from ingredients_loop_eq[OF this] show ?thesis
    using False by (simp add: mela_ingredients_to_list_def content_lines_def)
qed

lemma ingredients_sauce:
  "mela_ingredients_to_list L ids n (JStr (lit ''# Sauce'' @ [10] @ lit ''Tomatoes'' @ [10] @ lit ''Basil'')) =
     Inr ([JObj [(lit ''note'', JStr (lit ''Tomatoes'')), (lit ''referenceId'', JStr (ids n)),
                 (lit ''title'', JStr (lit ''Sauce''))],
           JObj [(lit ''note'', JStr (lit ''Basil'')), (lit ''referenceId'', JStr (ids (Suc n)))]],
          Suc (Suc n))"
  by (simp add: mela_ingredients_to_list_def text_eval is_header_def header_title_def
        pending_truthy_def Let_def)

text \<open>
  C4: the block \<open>"# Sauce\nTomatoes\nBasil"\<close> gives two ingredients, the first with
  note \<open>Tomatoes\<close> and title \<open>Sauce\<close>, the second with note \<open>Basil\<close> and no title.
  In general the ingredients are the non-blank lines that are no headers, in order; an
  ingredient has a title exactly when the non-blank line just before it is a header with
  a non-empty title, which is then its title: the title goes to the next content line
  only, and a header gives no ingredient of its own.
\<close>

theorem ingredients_header_attached:
  "mela_ingredients_to_list L ids n
     (JStr (lit ''# Sauce'' @ [10] @ lit ''Tomatoes'' @ [10] @ lit ''Basil'')) =
     Inr ([JObj [(lit ''note'', JStr (lit ''Tomatoes'')), (lit ''referenceId'', JStr (ids n)),
                 (lit ''title'', JStr (lit ''Sauce''))],
           JObj [(lit ''note'', JStr (lit ''Basil'')), (lit ''referenceId'', JStr (ids (Suc n)))]],
          Suc (Suc n))
   \<and> mela_ingredients_to_list L ids n (JStr s) =
     Inr (map (\<lambda>(k, (p, line)). ingredient_of (ids k) (title_from L p) line)
            (enumerate n (ingredient_lines L None (content_lines L s))),
          n + length (ingredient_lines L None (content_lines L s)))"
  using ingredients_sauce ingredients_general by blast


section \<open>Properties of the Record Mapper\<close>

lemma map_of_dict_set: "map_of (dict_set d k v) k' = (if k' = k then Some v else map_of d k')"
  by (induction d) auto

lemma convert_split:
  "convert_mela_to_mealie L ids n r ctab ttab =
     and_then (convert_fields L ids n r) (\<lambda>(mealie, n2).
       and_then (category_field L r ctab mealie) (\<lambda>mealie'.
         Inr (tags_field r ttab mealie', n2)))"
  by (simp add: convert_mela_to_mealie_def convert_fields_def and_then_def Let_def
        split: sum.splits prod.splits)






lemma copy_field_key:
  "map_of (copy_field r src dst m) k =
     (if k = dst \<and> truthy (dict_get r src) then Some (dict_get r src) else map_of m k)"
  by (simp add: copy_field_def map_of_dict_set)

lemma time_field_key:
  "time_field L r src dst m = Inr m' \<Longrightarrow> k \<noteq> dst \<Longrightarrow> map_of m' k = map_of m k"
  by (auto simp: time_field_def and_then_def map_of_dict_set split: if_splits sum.splits)

lemma date_field_key:
  "date_field L r m = Inr m' \<Longrightarrow> k \<noteq> lit ''dateAdded'' \<Longrightarrow> k \<noteq> lit ''createdAt'' \<Longrightarrow>
   map_of m' k = map_of m k"
  by (auto simp: date_field_def and_then_def map_of_dict_set split: if_splits sum.splits)

lemma notes_field_key: "k \<noteq> lit ''notes'' \<Longrightarrow> map_of (notes_field r m) k = map_of m k"
  by (simp add: notes_field_def map_of_dict_set Let_def)

lemma category_field_key:
  "category_field L r ctab m = Inr m' \<Longrightarrow> k \<noteq> lit ''recipeCategory'' \<Longrightarrow>
   map_of m' k = map_of m k"
  by (auto simp: category_field_def and_then_def map_of_dict_set
        split: if_splits sum.splits json.splits)

lemma tags_field_key: "k \<noteq> lit ''tags'' \<Longrightarrow> map_of (tags_field r ttab m) k = map_of m k"
  by (simp add: tags_field_def map_of_dict_set Let_def)

lemma convert_fields_InrD:
  assumes "convert_fields L ids n r = Inr (m, n2)"
  shows "\<exists>m1 m2 m3 m4 ings n1 steps.
           time_field L r (lit ''prepTime'') (lit ''prepTime'')
             (copy_field r (lit ''yield'') (lit ''recipeYield'')
                (copy_field r (lit ''text'') (lit ''description'')
                   (copy_field r (lit ''title'') (lit ''name'') []))) = Inr m1
         \<and> time_field L r (lit ''cookTime'') (lit ''performTime'') m1 = Inr m2
         \<and> time_field L r (lit ''totalTime'') (lit ''totalTime'') m2 = Inr m3
         \<and> date_field L r (copy_field r (lit ''link'') (lit ''orgURL'') m3) = Inr m4
         \<and> mela_ingredients_to_list L ids n
              (dict_get_default r (lit ''ingredients'') (JStr [])) = Inr (ings, n1)
         \<and> mela_instructions_to_steps L ids n1
              (dict_get_default r (lit ''instructions'') (JStr [])) = Inr (steps, n2)
         \<and> m = notes_field r
                 (dict_set (dict_set m4 (lit ''recipeIngredient'') (JList ings))
                    (lit ''recipeInstructions'') (JList steps))"
  using assms
  by (auto simp: convert_fields_def and_then_def split: sum.splits prod.splits)

lemma convert_InrD:
  assumes "convert_mela_to_mealie L ids n r ctab ttab = Inr (out, n2)"
  shows "\<exists>m m'. convert_fields L ids n r = Inr (m, n2) \<and> category_field L r ctab m = Inr m'
               \<and> out = tags_field r ttab m'"
  using assms
  by (auto simp: convert_split and_then_def split: sum.splits prod.splits)

lemmas convert_eval =
  convert_mela_to_mealie_def copy_field_def time_field_def date_field_def notes_field_def
  category_field_def tags_field_def dict_get_def dict_get_default_def opt_json_def
  mela_ingredients_to_list_def mela_instructions_to_steps_def is_header_def header_title_def
  pending_truthy_def new_step_def slugify_def slugify_str_def sub_class_def nfkd_ascii_def
  nsdate_def nsdate_int_def ord2ymd_def days_in_month_def is_leap_def pad2_def pad4_def
  ascii_lib_def ids0_def

lemma fields_no_refs:
  assumes "convert_fields L ids n r = Inr (m, n2)"
    and "k = lit ''recipeCategory'' \<or> k = lit ''tags''"
  shows "map_of m k = None"
proof -
  from convert_fields_InrD[OF assms(1)] obtain m1 m2 m3 m4 ings n1 steps where
    s1: "time_field L r (lit ''prepTime'') (lit ''prepTime'')
           (copy_field r (lit ''yield'') (lit ''recipeYield'')
              (copy_field r (lit ''text'') (lit ''description'')
                 (copy_field r (lit ''title'') (lit ''name'') []))) = Inr m1"
    and s2: "time_field L r (lit ''cookTime'') (lit ''performTime'') m1 = Inr m2"
    and s3: "time_field L r (lit ''totalTime'') (lit ''totalTime'') m2 = Inr m3"
    and s4: "date_field L r (copy_field r (lit ''link'') (lit ''orgURL'') m3) = Inr m4"
    and m: "m = notes_field r
                 (dict_set (dict_set m4 (lit ''recipeIngredient'') (JList ings))
                    (lit ''recipeInstructions'') (JList steps))"
    by blast
  have k: "k \<noteq> lit ''prepTime''" "k \<noteq> lit ''performTime''" "k \<noteq> lit ''totalTime''"
    "k \<noteq> lit ''dateAdded''" "k \<noteq> lit ''createdAt''" "k \<noteq> lit ''notes''"
    "k \<noteq> lit ''recipeIngredient''" "k \<noteq> lit ''recipeInstructions''"
    "k \<noteq> lit ''orgURL''" "k \<noteq> lit ''recipeYield''" "k \<noteq> lit ''description''"
    "k \<noteq> lit ''name''"
    using assms(2) by (auto simp: lit_def)
  have "map_of m k = map_of m4 k" by (simp add: m notes_field_key map_of_dict_set k)
  also have "\<dots> = map_of m3 k" by (simp add: date_field_key[OF s4] k copy_field_key)
  also have "\<dots> = map_of m2 k" by (simp add: time_field_key[OF s3] k)
  also have "\<dots> = map_of m1 k" by (simp add: time_field_key[OF s2] k)
  also have "\<dots> = None" by (simp add: time_field_key[OF s1] k copy_field_key)
  finally show ?thesis .
qed







lemma time_field_absent: "absent r src \<Longrightarrow> time_field L r src dst m = Inr m"
  by (simp add: time_field_def absent_def)

lemma time_field_present:
  "\<not> absent r src \<Longrightarrow> time_field L r src dst m = Inr m' \<Longrightarrow>
   \<exists>t. parse_time_to_iso L (dict_get r src) = Inr t \<and> m' = dict_set m dst (opt_json t)"
  by (auto simp: time_field_def absent_def and_then_def split: sum.splits)

lemma parse_none_blank:
  "truthy v \<Longrightarrow> parse_time_to_iso L v = Inr None \<Longrightarrow> \<exists>s. v = JStr s \<and> blank L s"
  by (cases v)
     (auto simp: parse_time_to_iso_def and_then_def py_strip_blank Let_def
        split: if_splits sum.splits)

lemma date_field_absent: "absent r (lit ''date'') \<Longrightarrow> date_field L r m = Inr m"
  by (simp add: date_field_def absent_def)

lemma date_field_present:
  "date_field L r m = Inr m' \<Longrightarrow>
   m' = m \<or> (\<exists>d c. m' = dict_set (dict_set m (lit ''dateAdded'') (JStr d)) (lit ''createdAt'') (JStr c))"
  by (auto simp: date_field_def and_then_def split: if_splits sum.splits)

lemma null_dict_set:
  "null_only_blank_time L r m \<Longrightarrow> (v = JNull \<Longrightarrow> blank_time L r k) \<Longrightarrow>
   null_only_blank_time L r (dict_set m k v)"
  by (auto simp: null_only_blank_time_def map_of_dict_set)

lemma null_copy_field:
  "null_only_blank_time L r m \<Longrightarrow> null_only_blank_time L r (copy_field r src dst m)"
  by (auto simp: copy_field_def intro!: null_dict_set)

lemma null_time_field:
  assumes "null_only_blank_time L r m" and "time_field L r src dst m = Inr m'"
    and "time_source dst = Some src"
  shows "null_only_blank_time L r m'"
proof (cases "absent r src")
  case True
  then show ?thesis using assms time_field_absent[OF True, of L dst m] by simp
next
  case False
  from time_field_present[OF False assms(2)] obtain t where
    t: "parse_time_to_iso L (dict_get r src) = Inr t" and m': "m' = dict_set m dst (opt_json t)"
    by blast
  have "opt_json t = JNull \<Longrightarrow> blank_time L r dst"
  proof -
    assume "opt_json t = JNull"
    then have "t = None" by (cases t) (simp_all add: opt_json_def)
    then obtain s where "dict_get r src = JStr s" "blank L s"
      using parse_none_blank[of "dict_get r src" L] t False by (auto simp: absent_def)
    then show ?thesis by (simp add: blank_time_def assms(3))
  qed
  then show ?thesis unfolding m' by (rule null_dict_set[OF assms(1)])
qed

lemma null_date_field:
  "null_only_blank_time L r m \<Longrightarrow> date_field L r m = Inr m' \<Longrightarrow> null_only_blank_time L r m'"
  by (drule date_field_present) (auto intro!: null_dict_set)

lemma null_notes_field:
  "null_only_blank_time L r m \<Longrightarrow> null_only_blank_time L r (notes_field r m)"
  by (auto simp: notes_field_def Let_def intro!: null_dict_set)

lemma null_category_field:
  "null_only_blank_time L r m \<Longrightarrow> category_field L r ctab m = Inr m' \<Longrightarrow>
   null_only_blank_time L r m'"
  by (auto simp: category_field_def and_then_def split: if_splits sum.splits json.splits
        intro!: null_dict_set)

lemma null_tags_field:
  "null_only_blank_time L r m \<Longrightarrow> null_only_blank_time L r (tags_field r ttab m)"
  by (auto simp: tags_field_def Let_def intro!: null_dict_set)

lemma convert_null:
  assumes "convert_mela_to_mealie L ids n r ctab ttab = Inr (out, n')"
  shows "null_only_blank_time L r out"
proof -
  from convert_InrD[OF assms] obtain m m' where
    f: "convert_fields L ids n r = Inr (m, n')" and c: "category_field L r ctab m = Inr m'"
    and o: "out = tags_field r ttab m'"
    by blast
  from convert_fields_InrD[OF f] obtain m1 m2 m3 m4 ings n1 steps where
    s1: "time_field L r (lit ''prepTime'') (lit ''prepTime'')
           (copy_field r (lit ''yield'') (lit ''recipeYield'')
              (copy_field r (lit ''text'') (lit ''description'')
                 (copy_field r (lit ''title'') (lit ''name'') []))) = Inr m1"
    and s2: "time_field L r (lit ''cookTime'') (lit ''performTime'') m1 = Inr m2"
    and s3: "time_field L r (lit ''totalTime'') (lit ''totalTime'') m2 = Inr m3"
    and s4: "date_field L r (copy_field r (lit ''link'') (lit ''orgURL'') m3) = Inr m4"
    and m: "m = notes_field r
                 (dict_set (dict_set m4 (lit ''recipeIngredient'') (JList ings))
                    (lit ''recipeInstructions'') (JList steps))"
    by blast
  have "null_only_blank_time L r []" by (simp add: null_only_blank_time_def)
  then have "null_only_blank_time L r m1"
    by (intro null_time_field[OF _ s1] null_copy_field) (simp_all add: time_source_def lit_def)
  then have "null_only_blank_time L r m2"
    by (rule null_time_field[OF _ s2]) (simp add: time_source_def lit_def)
  then have "null_only_blank_time L r m3"
    by (rule null_time_field[OF _ s3]) (simp add: time_source_def lit_def)
  then have "null_only_blank_time L r m4"
    by (intro null_date_field[OF _ s4] null_copy_field)
  then have "null_only_blank_time L r m"
    unfolding m by (intro null_notes_field null_dict_set) simp_all
  then show ?thesis unfolding o by (intro null_tags_field null_category_field[OF _ c])
qed

lemma convert_stages:
  assumes "convert_mela_to_mealie L ids n r ctab ttab = Inr (out, n')"
  shows "\<exists>m1 m2 m3 m4 ings n1 steps m5.
           time_field L r (lit ''prepTime'') (lit ''prepTime'')
             (copy_field r (lit ''yield'') (lit ''recipeYield'')
                (copy_field r (lit ''text'') (lit ''description'')
                   (copy_field r (lit ''title'') (lit ''name'') []))) = Inr m1
         \<and> time_field L r (lit ''cookTime'') (lit ''performTime'') m1 = Inr m2
         \<and> time_field L r (lit ''totalTime'') (lit ''totalTime'') m2 = Inr m3
         \<and> date_field L r (copy_field r (lit ''link'') (lit ''orgURL'') m3) = Inr m4
         \<and> mela_ingredients_to_list L ids n
              (dict_get_default r (lit ''ingredients'') (JStr [])) = Inr (ings, n1)
         \<and> mela_instructions_to_steps L ids n1
              (dict_get_default r (lit ''instructions'') (JStr [])) = Inr (steps, n')
         \<and> category_field L r ctab
              (notes_field r
                 (dict_set (dict_set m4 (lit ''recipeIngredient'') (JList ings))
                    (lit ''recipeInstructions'') (JList steps))) = Inr m5
         \<and> out = tags_field r ttab m5"
proof -
  from convert_InrD[OF assms] obtain m m' where
    f: "convert_fields L ids n r = Inr (m, n')" and c: "category_field L r ctab m = Inr m'"
    and o: "out = tags_field r ttab m'"
    by blast
  from convert_fields_InrD[OF f] c o show ?thesis by blast
qed

text \<open>The value of a key in the payload, stage by stage from the last one back.\<close>

lemma convert_after_fields:
  assumes "convert_mela_to_mealie L ids n r ctab ttab = Inr (out, n')"
    and "k \<noteq> lit ''tags''" "k \<noteq> lit ''recipeCategory''" "k \<noteq> lit ''notes''"
    and "k \<noteq> lit ''recipeInstructions''" "k \<noteq> lit ''recipeIngredient''"
    and "k \<noteq> lit ''dateAdded''" "k \<noteq> lit ''createdAt''"
  shows "\<exists>m1 m2 m3.
           time_field L r (lit ''prepTime'') (lit ''prepTime'')
             (copy_field r (lit ''yield'') (lit ''recipeYield'')
                (copy_field r (lit ''text'') (lit ''description'')
                   (copy_field r (lit ''title'') (lit ''name'') []))) = Inr m1
         \<and> time_field L r (lit ''cookTime'') (lit ''performTime'') m1 = Inr m2
         \<and> time_field L r (lit ''totalTime'') (lit ''totalTime'') m2 = Inr m3
         \<and> map_of out k = map_of (copy_field r (lit ''link'') (lit ''orgURL'') m3) k"
proof -
  from convert_stages[OF assms(1)] obtain m1 m2 m3 m4 ings n1 steps m5 where
    s1: "time_field L r (lit ''prepTime'') (lit ''prepTime'')
           (copy_field r (lit ''yield'') (lit ''recipeYield'')
              (copy_field r (lit ''text'') (lit ''description'')
                 (copy_field r (lit ''title'') (lit ''name'') []))) = Inr m1"
    and s2: "time_field L r (lit ''cookTime'') (lit ''performTime'') m1 = Inr m2"
    and s3: "time_field L r (lit ''totalTime'') (lit ''totalTime'') m2 = Inr m3"
    and s4: "date_field L r (copy_field r (lit ''link'') (lit ''orgURL'') m3) = Inr m4"
    and s5: "category_field L r ctab
              (notes_field r
                 (dict_set (dict_set m4 (lit ''recipeIngredient'') (JList ings))
                    (lit ''recipeInstructions'') (JList steps))) = Inr m5"
    and o: "out = tags_field r ttab m5"
    by blast
  have "map_of out k = map_of m5 k" by (simp add: o tags_field_key assms)
  also have "\<dots> = map_of m4 k"
    by (simp add: category_field_key[OF s5] notes_field_key map_of_dict_set assms)
  also have "\<dots> = map_of (copy_field r (lit ''link'') (lit ''orgURL'') m3) k"
    by (simp add: date_field_key[OF s4] assms)
  finally show ?thesis using s1 s2 s3 by blast
qed

lemma convert_copied:
  assumes "convert_mela_to_mealie L ids n r ctab ttab = Inr (out, n')"
    and "(src, dst) \<in> set [(lit ''title'', lit ''name''), (lit ''text'', lit ''description''),
                            (lit ''yield'', lit ''recipeYield''), (lit ''link'', lit ''orgURL'')]"
  shows "map_of out dst = (if absent r src then None else Some (dict_get r src))"
proof -
  have k: "dst \<noteq> lit ''tags''" "dst \<noteq> lit ''recipeCategory''" "dst \<noteq> lit ''notes''"
    "dst \<noteq> lit ''recipeInstructions''" "dst \<noteq> lit ''recipeIngredient''"
    "dst \<noteq> lit ''dateAdded''" "dst \<noteq> lit ''createdAt''"
    "dst \<noteq> lit ''prepTime''" "dst \<noteq> lit ''performTime''" "dst \<noteq> lit ''totalTime''"
    using assms(2) by (auto simp: lit_def)
  from convert_after_fields[OF assms(1) k(1-7)] obtain m1 m2 m3 where
    s1: "time_field L r (lit ''prepTime'') (lit ''prepTime'')
           (copy_field r (lit ''yield'') (lit ''recipeYield'')
              (copy_field r (lit ''text'') (lit ''description'')
                 (copy_field r (lit ''title'') (lit ''name'') []))) = Inr m1"
    and s2: "time_field L r (lit ''cookTime'') (lit ''performTime'') m1 = Inr m2"
    and s3: "time_field L r (lit ''totalTime'') (lit ''totalTime'') m2 = Inr m3"
    and o: "map_of out dst = map_of (copy_field r (lit ''link'') (lit ''orgURL'') m3) dst"
    by blast
  have m3: "map_of m3 dst = map_of (copy_field r (lit ''yield'') (lit ''recipeYield'')
              (copy_field r (lit ''text'') (lit ''description'')
                 (copy_field r (lit ''title'') (lit ''name'') []))) dst"
    by (simp add: time_field_key[OF s3] time_field_key[OF s2] time_field_key[OF s1] k)
  show ?thesis
    using assms(2) by (auto simp: o copy_field_key m3 absent_def lit_def)
qed

lemma convert_prep_time:
  assumes "convert_mela_to_mealie L ids n r ctab ttab = Inr (out, n')"
  shows "(absent r (lit ''prepTime'') \<longrightarrow> map_of out (lit ''prepTime'') = None)
       \<and> (\<not> absent r (lit ''prepTime'') \<longrightarrow>
            (\<exists>t. parse_time_to_iso L (dict_get r (lit ''prepTime'')) = Inr t
                 \<and> map_of out (lit ''prepTime'') = Some (opt_json t)))"
proof -
  have k: "lit ''prepTime'' \<noteq> lit ''tags''" "lit ''prepTime'' \<noteq> lit ''recipeCategory''"
    "lit ''prepTime'' \<noteq> lit ''notes''" "lit ''prepTime'' \<noteq> lit ''recipeInstructions''"
    "lit ''prepTime'' \<noteq> lit ''recipeIngredient''" "lit ''prepTime'' \<noteq> lit ''dateAdded''"
    "lit ''prepTime'' \<noteq> lit ''createdAt''" "lit ''prepTime'' \<noteq> lit ''orgURL''"
    "lit ''prepTime'' \<noteq> lit ''recipeYield''" "lit ''prepTime'' \<noteq> lit ''description''"
    "lit ''prepTime'' \<noteq> lit ''name''"
    by (simp_all add: lit_def)
  have t: "lit ''prepTime'' \<noteq> lit ''performTime''" "lit ''prepTime'' \<noteq> lit ''totalTime''"
    "lit ''performTime'' \<noteq> lit ''totalTime''" "lit ''performTime'' \<noteq> lit ''prepTime''"
    "lit ''totalTime'' \<noteq> lit ''prepTime''" "lit ''totalTime'' \<noteq> lit ''performTime''"
    by (simp_all add: lit_def)
  from convert_after_fields[OF assms(1) k(1-7)] obtain m1 m2 m3 where
    s1: "time_field L r (lit ''prepTime'') (lit ''prepTime'')
           (copy_field r (lit ''yield'') (lit ''recipeYield'')
              (copy_field r (lit ''text'') (lit ''description'')
                 (copy_field r (lit ''title'') (lit ''name'') []))) = Inr m1"
    and s2: "time_field L r (lit ''cookTime'') (lit ''performTime'') m1 = Inr m2"
    and s3: "time_field L r (lit ''totalTime'') (lit ''totalTime'') m2 = Inr m3"
    and o: "map_of out (lit ''prepTime'')
              = map_of (copy_field r (lit ''link'') (lit ''orgURL'') m3) (lit ''prepTime'')"
    by blast
  have e: "map_of out (lit ''prepTime'') = map_of m1 (lit ''prepTime'')"
    by (simp add: o copy_field_key k time_field_key[OF s3] time_field_key[OF s2] t)
  have b: "map_of (copy_field r (lit ''yield'') (lit ''recipeYield'') (copy_field r (lit ''text'') (lit ''description'') (copy_field r (lit ''title'') (lit ''name'') []))) (lit ''prepTime'') = None"
    by (simp add: copy_field_key k  t)
  show ?thesis
  proof (cases "absent r (lit ''prepTime'')")
    case True
    have "m1 = (copy_field r (lit ''yield'') (lit ''recipeYield'') (copy_field r (lit ''text'') (lit ''description'') (copy_field r (lit ''title'') (lit ''name'') [])))"
      using time_field_absent[OF True, of L "lit ''prepTime''" "(copy_field r (lit ''yield'') (lit ''recipeYield'') (copy_field r (lit ''text'') (lit ''description'') (copy_field r (lit ''title'') (lit ''name'') [])))"] s1 by simp
    then show ?thesis using True b by (simp add: e)
  next
    case False
    from time_field_present[OF False s1] show ?thesis
      using False by (auto simp: e map_of_dict_set)
  qed
qed

lemma convert_cook_time:
  assumes "convert_mela_to_mealie L ids n r ctab ttab = Inr (out, n')"
  shows "(absent r (lit ''cookTime'') \<longrightarrow> map_of out (lit ''performTime'') = None)
       \<and> (\<not> absent r (lit ''cookTime'') \<longrightarrow>
            (\<exists>t. parse_time_to_iso L (dict_get r (lit ''cookTime'')) = Inr t
                 \<and> map_of out (lit ''performTime'') = Some (opt_json t)))"
proof -
  have k: "lit ''performTime'' \<noteq> lit ''tags''" "lit ''performTime'' \<noteq> lit ''recipeCategory''"
    "lit ''performTime'' \<noteq> lit ''notes''" "lit ''performTime'' \<noteq> lit ''recipeInstructions''"
    "lit ''performTime'' \<noteq> lit ''recipeIngredient''" "lit ''performTime'' \<noteq> lit ''dateAdded''"
    "lit ''performTime'' \<noteq> lit ''createdAt''" "lit ''performTime'' \<noteq> lit ''orgURL''"
    "lit ''performTime'' \<noteq> lit ''recipeYield''" "lit ''performTime'' \<noteq> lit ''description''"
    "lit ''performTime'' \<noteq> lit ''name''"
    by (simp_all add: lit_def)
  have t: "lit ''prepTime'' \<noteq> lit ''performTime''" "lit ''prepTime'' \<noteq> lit ''totalTime''"
    "lit ''performTime'' \<noteq> lit ''totalTime''" "lit ''performTime'' \<noteq> lit ''prepTime''"
    "lit ''totalTime'' \<noteq> lit ''prepTime''" "lit ''totalTime'' \<noteq> lit ''performTime''"
    by (simp_all add: lit_def)
  from convert_after_fields[OF assms(1) k(1-7)] obtain m1 m2 m3 where
    s1: "time_field L r (lit ''prepTime'') (lit ''prepTime'')
           (copy_field r (lit ''yield'') (lit ''recipeYield'')
              (copy_field r (lit ''text'') (lit ''description'')
                 (copy_field r (lit ''title'') (lit ''name'') []))) = Inr m1"
    and s2: "time_field L r (lit ''cookTime'') (lit ''performTime'') m1 = Inr m2"
    and s3: "time_field L r (lit ''totalTime'') (lit ''totalTime'') m2 = Inr m3"
    and o: "map_of out (lit ''performTime'')
              = map_of (copy_field r (lit ''link'') (lit ''orgURL'') m3) (lit ''performTime'')"
    by blast
  have e: "map_of out (lit ''performTime'') = map_of m2 (lit ''performTime'')"
    by (simp add: o copy_field_key k time_field_key[OF s3] t)
  have b: "map_of m1 (lit ''performTime'') = None"
    by (simp add: copy_field_key k time_field_key[OF s1] t)
  show ?thesis
  proof (cases "absent r (lit ''cookTime'')")
    case True
    have "m2 = m1"
      using time_field_absent[OF True, of L "lit ''performTime''" "m1"] s2 by simp
    then show ?thesis using True b by (simp add: e)
  next
    case False
    from time_field_present[OF False s2] show ?thesis
      using False by (auto simp: e map_of_dict_set)
  qed
qed

lemma convert_total_time:
  assumes "convert_mela_to_mealie L ids n r ctab ttab = Inr (out, n')"
  shows "(absent r (lit ''totalTime'') \<longrightarrow> map_of out (lit ''totalTime'') = None)
       \<and> (\<not> absent r (lit ''totalTime'') \<longrightarrow>
            (\<exists>t. parse_time_to_iso L (dict_get r (lit ''totalTime'')) = Inr t
                 \<and> map_of out (lit ''totalTime'') = Some (opt_json t)))"
proof -
  have k: "lit ''totalTime'' \<noteq> lit ''tags''" "lit ''totalTime'' \<noteq> lit ''recipeCategory''"
    "lit ''totalTime'' \<noteq> lit ''notes''" "lit ''totalTime'' \<noteq> lit ''recipeInstructions''"
    "lit ''totalTime'' \<noteq> lit ''recipeIngredient''" "lit ''totalTime'' \<noteq> lit ''dateAdded''"
    "lit ''totalTime'' \<noteq> lit ''createdAt''" "lit ''totalTime'' \<noteq> lit ''orgURL''"
    "lit ''totalTime'' \<noteq> lit ''recipeYield''" "lit ''totalTime'' \<noteq> lit ''description''"
    "lit ''totalTime'' \<noteq> lit ''name''"
    by (simp_all add: lit_def)
  have t: "lit ''prepTime'' \<noteq> lit ''performTime''" "lit ''prepTime'' \<noteq> lit ''totalTime''"
    "lit ''performTime'' \<noteq> lit ''totalTime''" "lit ''performTime'' \<noteq> lit ''prepTime''"
    "lit ''totalTime'' \<noteq> lit ''prepTime''" "lit ''totalTime'' \<noteq> lit ''performTime''"
    by (simp_all add: lit_def)
  from convert_after_fields[OF assms(1) k(1-7)] obtain m1 m2 m3 where
    s1: "time_field L r (lit ''prepTime'') (lit ''prepTime'')
           (copy_field r (lit ''yield'') (lit ''recipeYield'')
              (copy_field r (lit ''text'') (lit ''description'')
                 (copy_field r (lit ''title'') (lit ''name'') []))) = Inr m1"
    and s2: "time_field L r (lit ''cookTime'') (lit ''performTime'') m1 = Inr m2"
    and s3: "time_field L r (lit ''totalTime'') (lit ''totalTime'') m2 = Inr m3"
    and o: "map_of out (lit ''totalTime'')
              = map_of (copy_field r (lit ''link'') (lit ''orgURL'') m3) (lit ''totalTime'')"
    by blast
  have e: "map_of out (lit ''totalTime'') = map_of m3 (lit ''totalTime'')"
    by (simp add: o copy_field_key k  t)
  have b: "map_of m2 (lit ''totalTime'') = None"
    by (simp add: copy_field_key k time_field_key[OF s2] time_field_key[OF s1] t)
  show ?thesis
  proof (cases "absent r (lit ''totalTime'')")
    case True
    have "m3 = m2"
      using time_field_absent[OF True, of L "lit ''totalTime''" "m2"] s3 by simp
    then show ?thesis using True b by (simp add: e)
  next
    case False
    from time_field_present[OF False s3] show ?thesis
      using False by (auto simp: e map_of_dict_set)
  qed
qed

lemma key_of3: "k = a \<or> k = b \<or> k = c \<Longrightarrow> a \<noteq> x \<Longrightarrow> b \<noteq> x \<Longrightarrow> c \<noteq> x \<Longrightarrow> k \<noteq> x"
  by auto

lemma key_of2: "k = a \<or> k = b \<Longrightarrow> a \<noteq> x \<Longrightarrow> b \<noteq> x \<Longrightarrow> k \<noteq> x"
  by auto

lemma fields_none_before_date:
  assumes s1: "time_field L r (lit ''prepTime'') (lit ''prepTime'')
           (copy_field r (lit ''yield'') (lit ''recipeYield'')
              (copy_field r (lit ''text'') (lit ''description'')
                 (copy_field r (lit ''title'') (lit ''name'') []))) = Inr m1"
    and s2: "time_field L r (lit ''cookTime'') (lit ''performTime'') m1 = Inr m2"
    and s3: "time_field L r (lit ''totalTime'') (lit ''totalTime'') m2 = Inr m3"
    and k: "k = lit ''dateAdded'' \<or> k = lit ''createdAt'' \<or> k = lit ''notes''"
  shows "map_of (copy_field r (lit ''link'') (lit ''orgURL'') m3) k = None"
proof -
  have n: "k \<noteq> lit ''prepTime''" "k \<noteq> lit ''performTime''" "k \<noteq> lit ''totalTime''"
    "k \<noteq> lit ''orgURL''" "k \<noteq> lit ''recipeYield''" "k \<noteq> lit ''description''"
    "k \<noteq> lit ''name''"
    by (rule key_of3[OF k]; simp add: lit_def)+
  show ?thesis
    by (simp add: copy_field_key time_field_key[OF s3] time_field_key[OF s2]
          time_field_key[OF s1] n)
qed

lemma convert_date_absent:
  assumes "convert_mela_to_mealie L ids n r ctab ttab = Inr (out, n')"
    and "absent r (lit ''date'')"
  shows "map_of out (lit ''dateAdded'') = None \<and> map_of out (lit ''createdAt'') = None"
proof -
  from convert_stages[OF assms(1)] obtain m1 m2 m3 m4 ings n1 steps m5 where
    s1: "time_field L r (lit ''prepTime'') (lit ''prepTime'')
           (copy_field r (lit ''yield'') (lit ''recipeYield'')
              (copy_field r (lit ''text'') (lit ''description'')
                 (copy_field r (lit ''title'') (lit ''name'') []))) = Inr m1"
    and s2: "time_field L r (lit ''cookTime'') (lit ''performTime'') m1 = Inr m2"
    and s3: "time_field L r (lit ''totalTime'') (lit ''totalTime'') m2 = Inr m3"
    and s4: "date_field L r (copy_field r (lit ''link'') (lit ''orgURL'') m3) = Inr m4"
    and s5: "category_field L r ctab
              (notes_field r
                 (dict_set (dict_set m4 (lit ''recipeIngredient'') (JList ings))
                    (lit ''recipeInstructions'') (JList steps))) = Inr m5"
    and o: "out = tags_field r ttab m5"
    by blast
  have m4: "m4 = copy_field r (lit ''link'') (lit ''orgURL'') m3"
    using date_field_absent[OF assms(2), of L] s4 by simp
  have "map_of out k = map_of m4 k"
    if "k = lit ''dateAdded'' \<or> k = lit ''createdAt''" for k
  proof -
    have n: "k \<noteq> lit ''tags''" "k \<noteq> lit ''recipeCategory''" "k \<noteq> lit ''notes''"
      "k \<noteq> lit ''recipeInstructions''" "k \<noteq> lit ''recipeIngredient''"
      by (rule key_of2[OF that]; simp add: lit_def)+
    show ?thesis
      by (simp add: o tags_field_key category_field_key[OF s5] notes_field_key
            map_of_dict_set n)
  qed
  then show ?thesis using fields_none_before_date[OF s1 s2 s3] by (simp add: m4)
qed

lemma convert_notes_absent:
  assumes "convert_mela_to_mealie L ids n r ctab ttab = Inr (out, n')"
    and "absent r (lit ''notes'')" "absent r (lit ''nutrition'')"
  shows "map_of out (lit ''notes'') = None"
proof -
  from convert_stages[OF assms(1)] obtain m1 m2 m3 m4 ings n1 steps m5 where
    s1: "time_field L r (lit ''prepTime'') (lit ''prepTime'')
           (copy_field r (lit ''yield'') (lit ''recipeYield'')
              (copy_field r (lit ''text'') (lit ''description'')
                 (copy_field r (lit ''title'') (lit ''name'') []))) = Inr m1"
    and s2: "time_field L r (lit ''cookTime'') (lit ''performTime'') m1 = Inr m2"
    and s3: "time_field L r (lit ''totalTime'') (lit ''totalTime'') m2 = Inr m3"
    and s4: "date_field L r (copy_field r (lit ''link'') (lit ''orgURL'') m3) = Inr m4"
    and s5: "category_field L r ctab
              (notes_field r
                 (dict_set (dict_set m4 (lit ''recipeIngredient'') (JList ings))
                    (lit ''recipeInstructions'') (JList steps))) = Inr m5"
    and o: "out = tags_field r ttab m5"
    by blast
  have n: "lit ''notes'' \<noteq> lit ''tags''" "lit ''notes'' \<noteq> lit ''recipeCategory''"
    "lit ''notes'' \<noteq> lit ''recipeInstructions''" "lit ''notes'' \<noteq> lit ''recipeIngredient''"
    "lit ''notes'' \<noteq> lit ''dateAdded''" "lit ''notes'' \<noteq> lit ''createdAt''"
    by (simp_all add: lit_def)
  have id: "\<And>x. notes_field r x = x"
    using assms(2,3) by (simp add: notes_field_def absent_def)
  have "map_of out (lit ''notes'') = map_of m4 (lit ''notes'')"
    by (simp add: o tags_field_key category_field_key[OF s5] id map_of_dict_set n)
  also have "\<dots> = map_of (copy_field r (lit ''link'') (lit ''orgURL'') m3) (lit ''notes'')"
    by (simp add: date_field_key[OF s4] n)
  also have "\<dots> = None" by (rule fields_none_before_date[OF s1 s2 s3]) simp
  finally show ?thesis .
qed

lemma convert_categories_absent:
  assumes "convert_mela_to_mealie L ids n r ctab ttab = Inr (out, n')"
    and "absent r (lit ''categories'')"
  shows "map_of out (lit ''recipeCategory'') = None"
proof -
  from convert_InrD[OF assms(1)] obtain m m' where
    f: "convert_fields L ids n r = Inr (m, n')" and c: "category_field L r ctab m = Inr m'"
    and o: "out = tags_field r ttab m'"
    by blast
  have "m' = m" using c assms(2) by (simp add: category_field_def absent_def)
  moreover have "lit ''recipeCategory'' \<noteq> lit ''tags''" by (simp add: lit_def)
  ultimately show ?thesis using fields_no_refs[OF f] by (simp add: o tags_field_key)
qed

lemma convert_lists:
  assumes "convert_mela_to_mealie L ids n r ctab ttab = Inr (out, n')"
  shows "\<exists>ings n1 steps.
           mela_ingredients_to_list L ids n
              (dict_get_default r (lit ''ingredients'') (JStr [])) = Inr (ings, n1)
         \<and> mela_instructions_to_steps L ids n1
              (dict_get_default r (lit ''instructions'') (JStr [])) = Inr (steps, n')
         \<and> map_of out (lit ''recipeIngredient'') = Some (JList ings)
         \<and> map_of out (lit ''recipeInstructions'') = Some (JList steps)"
proof -
  from convert_stages[OF assms(1)] obtain m4 ings n1 steps m5 where
    i: "mela_ingredients_to_list L ids n
              (dict_get_default r (lit ''ingredients'') (JStr [])) = Inr (ings, n1)"
    and j: "mela_instructions_to_steps L ids n1
              (dict_get_default r (lit ''instructions'') (JStr [])) = Inr (steps, n')"
    and s5: "category_field L r ctab
              (notes_field r
                 (dict_set (dict_set m4 (lit ''recipeIngredient'') (JList ings))
                    (lit ''recipeInstructions'') (JList steps))) = Inr m5"
    and o: "out = tags_field r ttab m5"
    by blast
  have n: "lit ''recipeIngredient'' \<noteq> lit ''tags''"
    "lit ''recipeIngredient'' \<noteq> lit ''recipeCategory''"
    "lit ''recipeIngredient'' \<noteq> lit ''notes''"
    "lit ''recipeIngredient'' \<noteq> lit ''recipeInstructions''"
    "lit ''recipeInstructions'' \<noteq> lit ''tags''"
    "lit ''recipeInstructions'' \<noteq> lit ''recipeCategory''"
    "lit ''recipeInstructions'' \<noteq> lit ''notes''"
    by (simp_all add: lit_def)
  have "map_of out (lit ''recipeIngredient'') = Some (JList ings)"
    by (simp add: o tags_field_key category_field_key[OF s5] notes_field_key
          map_of_dict_set n)
  moreover have "map_of out (lit ''recipeInstructions'') = Some (JList steps)"
    by (simp add: o tags_field_key category_field_key[OF s5] notes_field_key
          map_of_dict_set n)
  ultimately show ?thesis using i j by blast
qed

text \<open>
  C10: whenever \<open>convert_mela_to_mealie\<close> returns, the payload has the keys
  \<open>recipeIngredient\<close> and \<open>recipeInstructions\<close>, each bound to a list; the list is
  empty when the source record has no \<open>ingredients\<close>, respectively \<open>instructions\<close>,
  field.
\<close>

theorem convert_always_lists:
  assumes "convert_mela_to_mealie L ids n r ctab ttab = Inr (out, n')"
  shows "\<exists>ings steps.
           map_of out (lit ''recipeIngredient'') = Some (JList ings)
         \<and> map_of out (lit ''recipeInstructions'') = Some (JList steps)
         \<and> (map_of r (lit ''ingredients'') = None \<longrightarrow> ings = [])
         \<and> (map_of r (lit ''instructions'') = None \<longrightarrow> steps = [])"
proof -
  from convert_lists[OF assms] obtain ings n1 steps where
    i: "mela_ingredients_to_list L ids n
              (dict_get_default r (lit ''ingredients'') (JStr [])) = Inr (ings, n1)"
    and j: "mela_instructions_to_steps L ids n1
              (dict_get_default r (lit ''instructions'') (JStr [])) = Inr (steps, n')"
    and o: "map_of out (lit ''recipeIngredient'') = Some (JList ings)"
       "map_of out (lit ''recipeInstructions'') = Some (JList steps)"
    by blast
  have "map_of r (lit ''ingredients'') = None \<Longrightarrow> ings = []"
    using i by (simp add: dict_get_default_def mela_ingredients_to_list_def)
  moreover have "map_of r (lit ''instructions'') = None \<Longrightarrow> steps = []"
    using j by (simp add: dict_get_default_def mela_instructions_to_steps_def)
  ultimately show ?thesis using o by (intro exI[of _ ings] exI[of _ steps]) simp
qed

lemma stew_converted:
  "convert_mela_to_mealie ascii_lib ids0 0 stew [] [] =
     Inr ([(lit ''name'', JStr (lit ''Stew'')),
           (lit ''performTime'', JStr (lit ''soon'')),
           (lit ''totalTime'', JStr (lit ''PT2H'')),
           (lit ''recipeIngredient'',
              JList [JObj [(lit ''note'', JStr (lit ''Beef'')),
                           (lit ''referenceId'', JStr (lit ''id-0''))]]),
           (lit ''recipeInstructions'', JList [])], 1)"
  by (simp add: stew_def convert_eval text_eval time_eval)

theorem convert_always_lists_witness:
  "convert_mela_to_mealie ascii_lib ids0 0 stew [] [] =
     Inr ([(lit ''name'', JStr (lit ''Stew'')),
           (lit ''performTime'', JStr (lit ''soon'')),
           (lit ''totalTime'', JStr (lit ''PT2H'')),
           (lit ''recipeIngredient'',
              JList [JObj [(lit ''note'', JStr (lit ''Beef'')),
                           (lit ''referenceId'', JStr (lit ''id-0''))]]),
           (lit ''recipeInstructions'', JList [])], 1)
   \<and> map_of stew (lit ''instructions'') = None
   \<and> map_of [(lit ''name'', JStr (lit ''Stew'')),
           (lit ''performTime'', JStr (lit ''soon'')),
           (lit ''totalTime'', JStr (lit ''PT2H'')),
           (lit ''recipeIngredient'',
              JList [JObj [(lit ''note'', JStr (lit ''Beef'')),
                           (lit ''referenceId'', JStr (lit ''id-0''))]]),
           (lit ''recipeInstructions'', JList [])] (lit ''recipeInstructions'')
       = Some (JList [])"
  using convert_always_lists[OF stew_converted] stew_converted
  by (simp add: stew_def lit_def)

lemma convert_lists_absent:
  assumes "convert_mela_to_mealie L ids n r ctab ttab = Inr (out, n')"
  shows "\<exists>ings steps.
           map_of out (lit ''recipeIngredient'') = Some (JList ings)
         \<and> map_of out (lit ''recipeInstructions'') = Some (JList steps)
         \<and> (absent r (lit ''ingredients'') \<longrightarrow> ings = [])
         \<and> (absent r (lit ''instructions'') \<longrightarrow> steps = [])"
proof -
  from convert_lists[OF assms] obtain ings n1 steps where
    i: "mela_ingredients_to_list L ids n
              (dict_get_default r (lit ''ingredients'') (JStr [])) = Inr (ings, n1)"
    and j: "mela_instructions_to_steps L ids n1
              (dict_get_default r (lit ''instructions'') (JStr [])) = Inr (steps, n')"
    and o: "map_of out (lit ''recipeIngredient'') = Some (JList ings)"
       "map_of out (lit ''recipeInstructions'') = Some (JList steps)"
    by blast
  have f: "\<And>k. absent r k \<Longrightarrow> \<not> truthy (dict_get_default r k (JStr []))"
    by (simp add: absent_def dict_get_def dict_get_default_def split: option.splits)
  have "absent r (lit ''ingredients'') \<Longrightarrow> ings = []"
    using i f[of "lit ''ingredients''"] by (simp add: mela_ingredients_to_list_def)
  moreover have "absent r (lit ''instructions'') \<Longrightarrow> steps = []"
    using j f[of "lit ''instructions''"] by (simp add: mela_instructions_to_steps_def)
  ultimately show ?thesis using o by (intro exI[of _ ings] exI[of _ steps]) simp
qed

lemma time_string:
  assumes "dict_get r src = JStr s" and "\<not> blank L s"
    and "(absent r src \<longrightarrow> map_of out dst = None)
       \<and> (\<not> absent r src \<longrightarrow>
            (\<exists>t. parse_time_to_iso L (dict_get r src) = Inr t
                 \<and> map_of out dst = Some (opt_json t)))"
  shows "\<exists>t. parse_time_to_iso L (JStr s) = Inr (Some t) \<and> map_of out dst = Some (JStr t)"
proof -
  have "s \<noteq> []" using assms(2) by (auto simp: blank_def)
  then have "\<not> absent r src" by (simp add: absent_def assms(1))
  then obtain t where t: "parse_time_to_iso L (JStr s) = Inr t"
    and o: "map_of out dst = Some (opt_json t)"
    using assms(1,3) by auto
  from parse_time_to_iso_none[of L s] t assms(2) obtain x where "t = Some x" by (cases t) auto
  then show ?thesis using t o by (simp add: opt_json_def)
qed

text \<open>
  C1, as amended: whenever \<open>convert_mela_to_mealie\<close> returns,
  \<^item> each of \<open>name\<close>, \<open>description\<close>, \<open>recipeYield\<close>, \<open>orgURL\<close> is left out when its
    source field (\<open>title\<close>, \<open>text\<close>, \<open>yield\<close>, \<open>link\<close>) is missing or falsy, and
    carries the source value otherwise;
  \<^item> each of \<open>prepTime\<close>, \<open>performTime\<close>, \<open>totalTime\<close> is left out when its source
    field (\<open>prepTime\<close>, \<open>cookTime\<close>, \<open>totalTime\<close>) is missing or falsy, and carries
    the string \<open>parse_time_to_iso\<close> returns when the source is a string that is not
    all whitespace (for a text that does not parse, the text itself, trimmed and
    lowercased);
  \<^item> \<open>dateAdded\<close> and \<open>createdAt\<close>, \<open>notes\<close>, \<open>recipeCategory\<close> are left out when
    their source fields are missing or falsy;
  \<^item> \<open>recipeIngredient\<close> and \<open>recipeInstructions\<close> are always there, each bound to a
    list, which is empty when its source field (\<open>ingredients\<close>, \<open>instructions\<close>) is
    missing or falsy;
  \<^item> no key is bound to \<open>None\<close>, except possibly a duration key whose source is a
    string of whitespace only.
\<close>

theorem convert_omits_absent:
  assumes "convert_mela_to_mealie L ids n r ctab ttab = Inr (out, n')"
  shows "(\<forall>(src, dst) \<in> set [(lit ''title'', lit ''name''), (lit ''text'', lit ''description''),
                              (lit ''yield'', lit ''recipeYield''), (lit ''link'', lit ''orgURL'')].
            map_of out dst = (if absent r src then None else Some (dict_get r src)))
       \<and> (\<forall>(src, dst) \<in> set [(lit ''prepTime'', lit ''prepTime''),
                                (lit ''cookTime'', lit ''performTime''),
                                (lit ''totalTime'', lit ''totalTime'')].
            (absent r src \<longrightarrow> map_of out dst = None)
            \<and> (\<forall>s. dict_get r src = JStr s \<and> \<not> blank L s \<longrightarrow>
                  (\<exists>t. parse_time_to_iso L (JStr s) = Inr (Some t)
                       \<and> map_of out dst = Some (JStr t))))
       \<and> (absent r (lit ''date'') \<longrightarrow>
            map_of out (lit ''dateAdded'') = None \<and> map_of out (lit ''createdAt'') = None)
       \<and> (absent r (lit ''notes'') \<and> absent r (lit ''nutrition'') \<longrightarrow>
            map_of out (lit ''notes'') = None)
       \<and> (absent r (lit ''categories'') \<longrightarrow> map_of out (lit ''recipeCategory'') = None)
       \<and> (\<exists>ings steps.
             map_of out (lit ''recipeIngredient'') = Some (JList ings)
           \<and> map_of out (lit ''recipeInstructions'') = Some (JList steps)
           \<and> (absent r (lit ''ingredients'') \<longrightarrow> ings = [])
           \<and> (absent r (lit ''instructions'') \<longrightarrow> steps = []))
       \<and> null_only_blank_time L r out"
proof -
  have a: "\<forall>(src, dst) \<in> set [(lit ''title'', lit ''name''), (lit ''text'', lit ''description''),
                              (lit ''yield'', lit ''recipeYield''), (lit ''link'', lit ''orgURL'')].
            map_of out dst = (if absent r src then None else Some (dict_get r src))"
    using convert_copied[OF assms] by blast
  have p1: "\<forall>s. dict_get r (lit ''prepTime'') = JStr s \<and> \<not> blank L s \<longrightarrow>
              (\<exists>t. parse_time_to_iso L (JStr s) = Inr (Some t)
                   \<and> map_of out (lit ''prepTime'') = Some (JStr t))"
    using time_string[OF _ _ convert_prep_time[OF assms]] by blast
  have p2: "\<forall>s. dict_get r (lit ''cookTime'') = JStr s \<and> \<not> blank L s \<longrightarrow>
              (\<exists>t. parse_time_to_iso L (JStr s) = Inr (Some t)
                   \<and> map_of out (lit ''performTime'') = Some (JStr t))"
    using time_string[OF _ _ convert_cook_time[OF assms]] by blast
  have p3: "\<forall>s. dict_get r (lit ''totalTime'') = JStr s \<and> \<not> blank L s \<longrightarrow>
              (\<exists>t. parse_time_to_iso L (JStr s) = Inr (Some t)
                   \<and> map_of out (lit ''totalTime'') = Some (JStr t))"
    using time_string[OF _ _ convert_total_time[OF assms]] by blast
  have b: "\<forall>(src, dst) \<in> set [(lit ''prepTime'', lit ''prepTime''),
                                (lit ''cookTime'', lit ''performTime''),
                                (lit ''totalTime'', lit ''totalTime'')].
            (absent r src \<longrightarrow> map_of out dst = None)
            \<and> (\<forall>s. dict_get r src = JStr s \<and> \<not> blank L s \<longrightarrow>
                  (\<exists>t. parse_time_to_iso L (JStr s) = Inr (Some t)
                       \<and> map_of out dst = Some (JStr t)))"
    using convert_prep_time[OF assms] convert_cook_time[OF assms] convert_total_time[OF assms]
      p1 p2 p3
    by simp
  show ?thesis
    using a b convert_date_absent[OF assms] convert_notes_absent[OF assms]
      convert_categories_absent[OF assms] convert_lists_absent[OF assms] convert_null[OF assms]
    by blast
qed

theorem convert_omits_absent_witness:
  "convert_mela_to_mealie ascii_lib ids0 0 stew [] [] =
     Inr ([(lit ''name'', JStr (lit ''Stew'')),
           (lit ''performTime'', JStr (lit ''soon'')),
           (lit ''totalTime'', JStr (lit ''PT2H'')),
           (lit ''recipeIngredient'',
              JList [JObj [(lit ''note'', JStr (lit ''Beef'')),
                           (lit ''referenceId'', JStr (lit ''id-0''))]]),
           (lit ''recipeInstructions'', JList [])], 1)
   \<and> absent stew (lit ''text'') \<and> absent stew (lit ''prepTime'')
   \<and> absent stew (lit ''instructions'')
   \<and> dict_get stew (lit ''cookTime'') = JStr (lit ''Soon'')
   \<and> \<not> blank ascii_lib (lit ''Soon'')
   \<and> parse_time_to_iso ascii_lib (JStr (lit ''Soon'')) = Inr (Some (lit ''soon''))"
  using convert_omits_absent[OF stew_converted] stew_converted
  by (simp add: stew_def absent_def dict_get_def blank_def text_eval time_eval)

text \<open>
  The claim as it stands fails: a duration that does not parse is passed on under its
  key, the two lists are there, empty, without a source field, and a duration of
  whitespace only gives a key bound to \<open>None\<close>.
\<close>

theorem convert_emits_unparsed_and_empty:
  "convert_mela_to_mealie ascii_lib ids0 0 [(lit ''cookTime'', JStr (lit ''Soon''))] [] [] =
     Inr ([(lit ''performTime'', JStr (lit ''soon'')),
           (lit ''recipeIngredient'', JList []),
           (lit ''recipeInstructions'', JList [])], 0)
   \<and> convert_mela_to_mealie ascii_lib ids0 0 [(lit ''prepTime'', JStr (lit '' ''))] [] [] =
     Inr ([(lit ''prepTime'', JNull),
           (lit ''recipeIngredient'', JList []),
           (lit ''recipeInstructions'', JList [])], 0)"
  by (simp add: convert_eval text_eval time_eval)

lemma erase_dict_set: "erase_ids (dict_set m k v) = dict_set (erase_ids m) k (erase_entry k v)"
  by (induction m) (auto simp: erase_ids_def)

lemma erase_entry_other:
  "k \<noteq> lit ''recipeIngredient'' \<Longrightarrow> k \<noteq> lit ''recipeInstructions'' \<Longrightarrow> erase_entry k v = v"
  by (simp add: erase_entry_def)

lemma erase_notes_field: "erase_ids (notes_field r m) = notes_field r (erase_ids m)"
  by (simp add: notes_field_def Let_def erase_dict_set erase_entry_def lit_def)

lemma erase_tags_field: "erase_ids (tags_field r ttab m) = tags_field r ttab (erase_ids m)"
  by (simp add: tags_field_def Let_def erase_dict_set erase_entry_def lit_def)

lemma erase_category_field:
  "category_field L r ctab (erase_ids m)
     = (case category_field L r ctab m of Inl e \<Rightarrow> Inl e | Inr m' \<Rightarrow> Inr (erase_ids m'))"
proof -
  have e: "\<And>v. erase_entry (lit ''recipeCategory'') v = v"
    by (simp add: erase_entry_def lit_def)
  show ?thesis
    by (auto simp: category_field_def and_then_def erase_dict_set e
          split: json.splits sum.splits)
qed

lemma erase_lists:
  "erase_ids (dict_set (dict_set m (lit ''recipeIngredient'') (JList xs))
                (lit ''recipeInstructions'') (JList ys))
     = dict_set (dict_set (erase_ids m) (lit ''recipeIngredient'')
                   (JList (map (erase_key (lit ''referenceId'')) xs)))
         (lit ''recipeInstructions'') (JList (map (erase_key (lit ''id'')) ys))"
proof -
  have "erase_entry (lit ''recipeIngredient'') (JList xs)
          = JList (map (erase_key (lit ''referenceId'')) xs)"
    by (simp add: erase_entry_def)
  moreover have "erase_entry (lit ''recipeInstructions'') (JList ys)
          = JList (map (erase_key (lit ''id'')) ys)"
    by (simp add: erase_entry_def lit_def)
  ultimately show ?thesis by (simp add: erase_dict_set)
qed

lemma fields_scalar:
  "convert_fields L ids n r =
     and_then (scalar_fields L r) (\<lambda>mealie.
     and_then (mela_ingredients_to_list L ids n
                 (dict_get_default r (lit ''ingredients'') (JStr [])))
       (\<lambda>(ingredients, n1).
     and_then (mela_instructions_to_steps L ids n1
                 (dict_get_default r (lit ''instructions'') (JStr [])))
       (\<lambda>(steps, n2).
     Inr (notes_field r
            (dict_set (dict_set mealie (lit ''recipeIngredient'') (JList ingredients))
               (lit ''recipeInstructions'') (JList steps)), n2))))"
  by (simp add: convert_fields_def scalar_fields_def and_then_def split: sum.splits)

lemma without_ids_payload:
  "without_ids (convert_mela_to_mealie L ids n r ctab ttab) =
     payload_without_ids L r ctab ttab
       (erased_list (lit ''referenceId'')
          (mela_ingredients_to_list L ids n (dict_get_default r (lit ''ingredients'') (JStr []))))
       (erased_list (lit ''id'')
          (mela_instructions_to_steps L ids
             (case mela_ingredients_to_list L ids n
                     (dict_get_default r (lit ''ingredients'') (JStr [])) of
                Inl e \<Rightarrow> n | Inr (xs, n1) \<Rightarrow> n1)
             (dict_get_default r (lit ''instructions'') (JStr []))))"
proof (cases "scalar_fields L r")
  case (Inl e)
  then show ?thesis
    by (simp add: without_ids_def convert_split fields_scalar payload_without_ids_def
          and_then_def)
next
  case sc: (Inr m)
  show ?thesis
  proof (cases "mela_ingredients_to_list L ids n
                  (dict_get_default r (lit ''ingredients'') (JStr []))")
    case (Inl e)
    then show ?thesis
      by (simp add: without_ids_def convert_split fields_scalar payload_without_ids_def
            and_then_def sc erased_list_def)
  next
    case ing: (Inr p)
    obtain xs n1 where p: "p = (xs, n1)" by (cases p) auto
    show ?thesis
    proof (cases "mela_instructions_to_steps L ids n1
                    (dict_get_default r (lit ''instructions'') (JStr []))")
      case (Inl e)
      then show ?thesis
        by (simp add: without_ids_def convert_split fields_scalar payload_without_ids_def
              and_then_def sc ing p erased_list_def)
    next
      case st: (Inr q)
      obtain ys n2 where q: "q = (ys, n2)" by (cases q) auto
      show ?thesis
        by (cases "category_field L r ctab
                     (notes_field r
                        (dict_set (dict_set m (lit ''recipeIngredient'') (JList xs))
                           (lit ''recipeInstructions'') (JList ys)))")
           (simp_all add: without_ids_def convert_split fields_scalar payload_without_ids_def
              and_then_def sc ing p st q erased_list_def erase_tags_field
              erase_category_field erase_notes_field [symmetric] erase_lists [symmetric])
    qed
  qed
qed

lemma erase_ingredient_id:
  "erase_key (lit ''referenceId'') (ingredient_of a t l)
     = erase_key (lit ''referenceId'') (ingredient_of [] t l)"
  by (simp add: ingredient_of_def lit_def split: option.splits)

lemma erase_step_id:
  "erase_key (lit ''id'') (step_of L a l) = erase_key (lit ''id'') (step_of L [] l)"
  by (simp add: step_of_def lit_def)

lemma erase_ingredients_enumerated:
  "map (erase_key (lit ''referenceId''))
     (map (\<lambda>(k, (p, line)). ingredient_of (ids k) (title_from L p) line) (enumerate n xs))
   = map (\<lambda>(p, line). erase_key (lit ''referenceId'') (ingredient_of [] (title_from L p) line))
       xs"
proof (induction xs arbitrary: n)
  case Nil
  show ?case by simp
next
  case (Cons x xs)
  obtain p l where x: "x = (p, l)" by (cases x) auto
  show ?case
    using Cons[of "Suc n"] erase_ingredient_id[of "ids n" "title_from L p" l]
    by (simp add: x)
qed

lemma erase_steps_enumerated:
  "map (erase_key (lit ''id''))
     (map (\<lambda>(k, line). step_of L (ids k) line) (enumerate n xs))
   = map (\<lambda>line. erase_key (lit ''id'') (step_of L [] line)) xs"
proof (induction xs arbitrary: n)
  case Nil
  show ?case by simp
next
  case (Cons x xs)
  show ?case
    using Cons[of "Suc n"] erase_step_id[of L "ids n" x] by simp
qed

lemma erased_ingredients:
  "erased_list (lit ''referenceId'') (mela_ingredients_to_list L ids n v)
     = (if \<not> truthy v then Inr []
        else (case v of
                JStr s \<Rightarrow>
                  Inr (map (\<lambda>(p, line). erase_key (lit ''referenceId'')
                                            (ingredient_of [] (title_from L p) line))
                         (ingredient_lines L None (content_lines L s)))
              | _ \<Rightarrow> Inl AttributeError))"
proof (cases v)
  case (JStr s)
  have "erased_list (lit ''referenceId'') (mela_ingredients_to_list L ids n (JStr s))
          = Inr (map (erase_key (lit ''referenceId''))
                   (map (\<lambda>(k, (p, line)). ingredient_of (ids k) (title_from L p) line)
                      (enumerate n (ingredient_lines L None (content_lines L s)))))"
    by (simp add: ingredients_general erased_list_def del: map_map)
  also have "\<dots> = Inr (map (\<lambda>(p, line). erase_key (lit ''referenceId'')
                                          (ingredient_of [] (title_from L p) line))
                         (ingredient_lines L None (content_lines L s)))"
    by (simp only: erase_ingredients_enumerated)
  finally show ?thesis
    by (cases "s = []")
       (simp_all add: JStr content_lines_def ingredient_lines_def with_prev_def py_strip_def
          strip_where_def)
qed (simp_all add: mela_ingredients_to_list_def erased_list_def)

lemma erased_steps:
  "erased_list (lit ''id'') (mela_instructions_to_steps L ids n v)
     = (if \<not> truthy v then Inr []
        else (case v of
                JStr s \<Rightarrow>
                  Inr (map (\<lambda>line. erase_key (lit ''id'') (step_of L [] line))
                         (content_lines L s))
              | _ \<Rightarrow> Inl AttributeError))"
proof (cases v)
  case (JStr s)
  have "erased_list (lit ''id'') (mela_instructions_to_steps L ids n (JStr s))
          = Inr (map (erase_key (lit ''id''))
                   (map (\<lambda>(k, line). step_of L (ids k) line)
                      (enumerate n (content_lines L s))))"
    by (simp add: instructions_general erased_list_def del: map_map)
  also have "\<dots> = Inr (map (\<lambda>line. erase_key (lit ''id'') (step_of L [] line))
                         (content_lines L s))"
    by (simp only: erase_steps_enumerated)
  finally show ?thesis
    by (cases "s = []")
       (simp_all add: JStr content_lines_def py_strip_def strip_where_def)
qed (simp_all add: mela_instructions_to_steps_def erased_list_def)

text \<open>
  C9: \<open>convert_mela_to_mealie\<close> is deterministic up to the generated identifiers. Two
  calls on the same record with the same lookup tables, whatever identifiers each of
  them draws, raise the same exception or return payloads that are equal once the
  \<open>referenceId\<close> of every ingredient and the \<open>id\<close> of every step are removed.
\<close>

theorem convert_deterministic_up_to_ids:
  "without_ids (convert_mela_to_mealie L ids n r ctab ttab)
     = without_ids (convert_mela_to_mealie L ids' n' r ctab ttab)"
  by (simp only: without_ids_payload erased_ingredients erased_steps)

section \<open>Properties of the Migration Orchestrator\<close>

lemma upload_image_sent:
  "upload_image L srv base slug img sent = (res, sent') \<Longrightarrow>
   \<exists>more. sent' = sent @ more \<and> list_all (targets (recipe_url base slug)) more"
  by (auto simp: upload_image_def send_def targets_def Let_def
        split: option.splits reply.splits)

lemma update_recipe_sent:
  assumes "update_recipe L srv ids cfg mela slug (sent, n) = (res, sent', n')"
  shows "\<exists>more. sent' = sent @ more
           \<and> list_all (targets (recipe_url (base_url cfg) slug)) more"
proof (cases "convert_mela_to_mealie L ids n mela (category_lookup cfg) (tag_lookup cfg)")
  case (Inl e)
  then show ?thesis using assms by (simp add: update_recipe_def)
next
  case (Inr p)
  obtain data n1 where p: "p = (data, n1)" by (cases p) auto
  define req where "req = Patch (recipe_url (base_url cfg) slug) (JObj data)"
  have t: "targets (recipe_url (base_url cfg) slug) req" by (simp add: req_def targets_def)
  show ?thesis
  proof (cases "srv (sent @ [req])")
    case NoReply
    then have "sent' = sent @ [req]"
      using assms by (simp add: update_recipe_def Inr p send_def req_def)
    then show ?thesis using t by simp
  next
    case (Reply status body)
    show ?thesis
    proof (cases "status = 200 \<and> truthy (dict_get_default mela (lit ''images'') (JList []))
                  \<and> \<not> skip_images cfg")
      case False
      then have "sent' = sent @ [req]"
        using assms Reply
        by (auto simp: update_recipe_def Inr p send_def req_def Let_def split: if_splits)
      then show ?thesis using t by simp
    next
      case True
      show ?thesis
      proof (cases "subscript0 (dict_get_default mela (lit ''images'') (JList []))")
        case (Inl e)
        then have "sent' = sent @ [req]"
          using assms Reply True
          by (simp add: update_recipe_def Inr p send_def req_def Let_def)
        then show ?thesis using t by simp
      next
        case img: (Inr first_image)
        obtain r2 sent2 where
          u: "upload_image L srv (base_url cfg) slug first_image (sent @ [req]) = (r2, sent2)"
          by (cases "upload_image L srv (base_url cfg) slug first_image (sent @ [req])") auto
        then have "sent' = sent2"
          using assms Reply True img
          by (cases r2) (simp_all add: update_recipe_def Inr p send_def req_def Let_def)
        moreover from upload_image_sent[OF u] obtain more where
          "sent2 = (sent @ [req]) @ more" "list_all (targets (recipe_url (base_url cfg) slug)) more"
          by blast
        ultimately have "sent' = sent @ (req # more)
            \<and> list_all (targets (recipe_url (base_url cfg) slug)) (req # more)"
          using t by simp
        then show ?thesis by blast
      qed
    qed
  qed
qed

lemma update_recipe_outcome:
  assumes "update_recipe L srv ids cfg mela slug (sent, n) = (res, sent', n')"
  shows "(case convert_mela_to_mealie L ids n mela (category_lookup cfg) (tag_lookup cfg) of
            Inl e \<Rightarrow> res = Inl e
          | Inr (mealie_data, n1) \<Rightarrow>
              (case srv (sent @ [Patch (recipe_url (base_url cfg) slug) (JObj mealie_data)]) of
                 NoReply \<Rightarrow> res = Inl RequestException
               | Reply status body \<Rightarrow>
                   if status = 200
                   then res \<noteq> Inr Failed
                        \<and> (\<not> truthy (dict_get_default mela (lit ''images'') (JList []))
                             \<or> skip_images cfg \<longrightarrow> res = Inr Succeeded)
                   else res = Inr Failed))"
proof (cases "convert_mela_to_mealie L ids n mela (category_lookup cfg) (tag_lookup cfg)")
  case (Inl e)
  then show ?thesis using assms by (simp add: update_recipe_def)
next
  case (Inr p)
  obtain data n1 where p: "p = (data, n1)" by (cases p) auto
  show ?thesis
  proof (cases "srv (sent @ [Patch (recipe_url (base_url cfg) slug) (JObj data)])")
    case NoReply
    then show ?thesis using assms by (simp add: update_recipe_def Inr p send_def)
  next
    case (Reply status body)
    show ?thesis
    proof (cases "status = 200")
      case False
      then show ?thesis using assms Reply by (simp add: update_recipe_def Inr p send_def)
    next
      case True
      have "res \<noteq> Inr Failed"
        using assms Reply True
        by (auto simp: update_recipe_def Inr p send_def Let_def
              split: if_splits sum.splits prod.splits)
      moreover have "res = Inr Succeeded"
        if "\<not> truthy (dict_get_default mela (lit ''images'') (JList [])) \<or> skip_images cfg"
        using assms Reply True that by (auto simp: update_recipe_def Inr p send_def Let_def)
      ultimately show ?thesis using Reply True by (simp add: Inr p)
    qed
  qed
qed

lemma targets_not_create: "list_all (targets url) rest \<Longrightarrow> list_all (\<lambda>req. \<not> is_create req) rest"
  by (induction rest) (auto simp: targets_def is_create_def split: request.splits)

text \<open>
  C2, as amended: when the create call for a record is answered with a conflict (409),
  the orchestrator sends exactly one more create call, under the name
  \<open>"<title> (mela-<int(time.time())>)"\<close>, and no further create call. If that call
  is not answered with 201 the record is marked failed and nothing else is sent. If it
  is, every later request of the record is an update of, or an image for, the slug this
  call returned, so the record that was there is not written to; the record is marked
  failed when the update is not answered with 200, and is not marked failed when it is:
  it is marked succeeded, at once when there is no image to upload, unless an exception
  ends the run.
\<close>

theorem conflict_retried_once:
  assumes "\<not> dry_run cfg"
    and "title = dict_get_default mela (lit ''title'') (JStr (lit ''Untitled''))"
    and "srv (sent @ [create_request cfg title]) = Reply 409 body"
    and "retry = create_request cfg
                   (JStr (py_str L title @ lit '' (mela-'' @ str_int now @ lit '')''))"
    and "migrate_record L srv ids cfg now mela (sent, n) = (res, sent', n')"
  shows "\<exists>rest. sent' = sent @ [create_request cfg title, retry] @ rest
       \<and> list_all (\<lambda>req. \<not> is_create req) rest
       \<and> (case srv (sent @ [create_request cfg title, retry]) of
             NoReply \<Rightarrow> rest = [] \<and> res = Inl RequestException
           | Reply status2 body2 \<Rightarrow>
               if status2 = 201
               then list_all (targets (recipe_url (base_url cfg) (slug_of L body2))) rest
                    \<and> (case convert_mela_to_mealie L ids n mela
                                (category_lookup cfg) (tag_lookup cfg) of
                          Inl e \<Rightarrow> res = Inl e
                        | Inr (mealie_data, n1) \<Rightarrow>
                            (case srv (sent @ [create_request cfg title, retry,
                                         Patch (recipe_url (base_url cfg) (slug_of L body2))
                                           (JObj mealie_data)]) of
                               NoReply \<Rightarrow> res = Inl RequestException
                             | Reply status3 body3 \<Rightarrow>
                                 if status3 = 200
                                 then res \<noteq> Inr Failed
                                      \<and> (\<not> truthy (dict_get_default mela (lit ''images'')
                                                     (JList []))
                                           \<or> skip_images cfg \<longrightarrow> res = Inr Succeeded)
                                 else res = Inr Failed))
               else rest = [] \<and> res = Inr Failed)"
proof (cases "srv (sent @ [create_request cfg title, retry])")
  case NoReply
  then have "sent' = sent @ [create_request cfg title, retry] \<and> res = Inl RequestException"
    using assms
    by (simp add: migrate_record_def send_def unique_title_def Let_def)
  then show ?thesis using NoReply by simp
next
  case (Reply status2 body2)
  show ?thesis
  proof (cases "status2 = 201")
    case False
    then have "sent' = sent @ [create_request cfg title, retry] \<and> res = Inr Failed"
      using assms Reply
      by (simp add: migrate_record_def send_def unique_title_def Let_def)
    then show ?thesis using Reply False by simp
  next
    case True
    have u: "update_recipe L srv ids cfg mela (slug_of L body2)
               (sent @ [create_request cfg title, retry], n) = (res, sent', n')"
      using assms Reply True
      by (simp add: migrate_record_def send_def unique_title_def Let_def)
    from update_recipe_sent[OF u] obtain rest where
      m: "sent' = (sent @ [create_request cfg title, retry]) @ rest"
      and t: "list_all (targets (recipe_url (base_url cfg) (slug_of L body2))) rest"
      by blast
    have "sent' = sent @ [create_request cfg title, retry] @ rest" using m by simp
    moreover have "list_all (\<lambda>req. \<not> is_create req) rest"
      using t by (rule targets_not_create)
    moreover have "case convert_mela_to_mealie L ids n mela
                                (category_lookup cfg) (tag_lookup cfg) of
                          Inl e \<Rightarrow> res = Inl e
                        | Inr (mealie_data, n1) \<Rightarrow>
                            (case srv (sent @ [create_request cfg title, retry,
                                         Patch (recipe_url (base_url cfg) (slug_of L body2))
                                           (JObj mealie_data)]) of
                               NoReply \<Rightarrow> res = Inl RequestException
                             | Reply status3 body3 \<Rightarrow>
                                 if status3 = 200
                                 then res \<noteq> Inr Failed
                                      \<and> (\<not> truthy (dict_get_default mela (lit ''images'')
                                                     (JList []))
                                           \<or> skip_images cfg \<longrightarrow> res = Inr Succeeded)
                                 else res = Inr Failed)"
    proof (cases "convert_mela_to_mealie L ids n mela (category_lookup cfg) (tag_lookup cfg)")
      case (Inl e)
      then show ?thesis using update_recipe_outcome[OF u] by simp
    next
      case (Inr p)
      obtain mealie_data n1 where p: "p = (mealie_data, n1)" by (cases p) auto
      show ?thesis using update_recipe_outcome[OF u] by (simp add: Inr p)
    qed
    ultimately show ?thesis using Reply True t by (intro exI[of _ rest]) simp
  qed
qed

lemmas migrate_eval =
  migrate_record_def update_recipe_def send_def create_request_def unique_title_def
  py_str_def str_int_def slug_of_def recipe_url_def upload_image_def subscript0_def
  cfg0_def pie_def srv_update_ok_def srv_update_fails_def

lemma pie_update_ok:
  "migrate_record ascii_lib srv_update_ok ids0 cfg0 1700000000 pie ([], 0) =
     (Inr Succeeded,
      [Post (lit ''http://mealie/api/recipes'') (JObj [(lit ''name'', JStr (lit ''Pie''))]),
       Post (lit ''http://mealie/api/recipes'')
         (JObj [(lit ''name'', JStr (lit ''Pie (mela-1700000000)''))]),
       Patch (lit ''http://mealie/api/recipes/pie-1'')
         (JObj [(lit ''name'', JStr (lit ''Pie'')), (lit ''recipeIngredient'', JList []),
                (lit ''recipeInstructions'', JList [])])],
      0)"
  by (simp add: migrate_eval convert_eval text_eval time_eval)

theorem conflict_retried_once_witness:
  "\<not> dry_run cfg0
   \<and> srv_update_ok [create_request cfg0 (JStr (lit ''Pie''))] = Reply 409 []
   \<and> migrate_record ascii_lib srv_update_ok ids0 cfg0 1700000000 pie ([], 0) =
     (Inr Succeeded,
      [Post (lit ''http://mealie/api/recipes'') (JObj [(lit ''name'', JStr (lit ''Pie''))]),
       Post (lit ''http://mealie/api/recipes'')
         (JObj [(lit ''name'', JStr (lit ''Pie (mela-1700000000)''))]),
       Patch (lit ''http://mealie/api/recipes/pie-1'')
         (JObj [(lit ''name'', JStr (lit ''Pie'')), (lit ''recipeIngredient'', JList []),
                (lit ''recipeInstructions'', JList [])])],
      0)"
proof -
  have h1: "\<not> dry_run cfg0" by (simp add: cfg0_def)
  have h2: "JStr (lit ''Pie'') = dict_get_default pie (lit ''title'') (JStr (lit ''Untitled''))"
    by (simp add: pie_def dict_get_default_def)
  have h3: "srv_update_ok ([] @ [create_request cfg0 (JStr (lit ''Pie''))]) = Reply 409 []"
    by (simp add: srv_update_ok_def)
  from conflict_retried_once[OF h1 h2 h3 refl pie_update_ok] show ?thesis
    using h1 h3 pie_update_ok by simp
qed

text \<open>
  The retry alone does not decide: here it is answered with 201 and the update that
  follows with 500, and the record is marked failed.
\<close>

theorem conflict_update_fails:
  "migrate_record ascii_lib srv_update_fails ids0 cfg0 1700000000 pie ([], 0) =
     (Inr Failed,
      [Post (lit ''http://mealie/api/recipes'') (JObj [(lit ''name'', JStr (lit ''Pie''))]),
       Post (lit ''http://mealie/api/recipes'')
         (JObj [(lit ''name'', JStr (lit ''Pie (mela-1700000000)''))]),
       Patch (lit ''http://mealie/api/recipes/pie-1'')
         (JObj [(lit ''name'', JStr (lit ''Pie'')), (lit ''recipeIngredient'', JList []),
                (lit ''recipeInstructions'', JList [])])],
      0)"
  by (simp add: migrate_eval convert_eval text_eval time_eval)

end
